theory Spec2Isabelle
  imports Main "HOL-Library.Word" "HOL-Library.Multiset"
    "HOL-Library.List_Lexorder" "HOL-Library.Char_ord"
begin

unbundle bit_operations_syntax

section \<open>Errors\<close>

text \<open>
  A Go \<open>error\<close> value is modelled by its message: \<open>None\<close> is the nil error and
  \<open>Some m\<close> an error whose \<open>Error()\<close> string is \<open>m\<close>.
\<close>

type_synonym error = "string option"

text \<open>
  Modelled from the spec: package \<open>common\<close> is not among the sources. The spec's
  scenario 5 shows the message of \<open>common.NewRPCError(s)\<close> to be \<open>s\<close> itself; the
  variadic form joins its arguments.
\<close>

definition NewRPCError :: "string list \<Rightarrow> string" where
  "NewRPCError parts = concat parts"

section \<open>Client (client/client.go)\<close>

datatype FailMode = Failover | Failfast | Failtry | Broadcast | Forking

text \<open>
  Of the \<open>Client\<close> struct only \<open>FailMode\<close> and \<open>MaxTry\<close> are read by \<open>Call\<close>;
  the selector is the environment below.
\<close>

record Client =
  FailMode :: FailMode
  MaxTry :: int

text \<open>The client-side \<open>Call\<close> struct, as far as \<open>client.go\<close> reads it.\<close>

record 'r Call =
  call_Reply :: 'r
  call_Error :: error

text \<open>
  \<open>Selector\<close> and \<open>Invoker\<close> are interfaces whose implementations are not part of
  \<open>client.go\<close>. They are parameters of the model: functions over a state \<open>'s\<close> that
  stands for the selector, its invokers and the network behind them. \<open>'i\<close> names an
  invoker, \<open>'a\<close> is the type of the arguments and \<open>'r\<close> the content of the reply
  variable.
\<close>

record ('s, 'i, 'a, 'r) client_env =
  sel_Select :: "string \<Rightarrow> 'a \<Rightarrow> 's \<Rightarrow> ('i option \<times> error) \<times> 's"
  sel_HandleFailed :: "'i \<Rightarrow> 's \<Rightarrow> 's"
  sel_List :: "'s \<Rightarrow> 'i list \<times> 's"
  inv_Call :: "'i \<Rightarrow> string \<Rightarrow> 'a \<Rightarrow> 'r \<Rightarrow> 's \<Rightarrow> (error \<times> 'r) \<times> 's"
  inv_Go :: "'i \<Rightarrow> string \<Rightarrow> 'a \<Rightarrow> 's \<Rightarrow> 's"

text \<open>
  The calls made on the selector and on the invokers, in program order; \<open>EvCall i e\<close>
  is a call of \<open>Invoker.Call\<close> on \<open>i\<close> that returned \<open>e\<close>.
\<close>

datatype 'i event =
  EvSelect
  | EvList
  | EvCall 'i error
  | EvGo 'i
  | EvHandleFailed 'i

record ('s, 'i, 'r) result =
  res_err :: error
  res_reply :: 'r
  res_state :: 's
  res_trace :: "'i event list"


text \<open>
  The \<open>Failover\<close> loop of \<open>Client.Call\<close>. \<open>r\<close> carries the named result \<open>err\<close>, the
  reply, the state and the trace from one iteration to the next. The two branches that go
  on without a call are the \<open>continue\<close> of \<open>err != nil || invoker == nil\<close>.
\<close>

function failoverLoop ::
  "('s, 'i, 'a, 'r) client_env \<Rightarrow> string \<Rightarrow> 'a \<Rightarrow> int \<Rightarrow> ('s, 'i, 'r) result
    \<Rightarrow> ('s, 'i, 'r) result" where
  "failoverLoop E serviceMethod args tries r =
     (if tries > 0 then
        (case sel_Select E serviceMethod args (res_state r) of
           ((invoker, err), s1) \<Rightarrow>
             (case invoker of
                None \<Rightarrow>
                  failoverLoop E serviceMethod args (tries - 1)
                    (r\<lparr>res_err := err, res_state := s1, res_trace := res_trace r @ [EvSelect]\<rparr>)
              | Some i \<Rightarrow>
                  if err \<noteq> None then
                    failoverLoop E serviceMethod args (tries - 1)
                      (r\<lparr>res_err := err, res_state := s1, res_trace := res_trace r @ [EvSelect]\<rparr>)
                  else
                    (case inv_Call E i serviceMethod args (res_reply r) s1 of
                       ((err2, reply2), s2) \<Rightarrow>
                         if err2 = None then
                           \<lparr>res_err = None, res_reply = reply2, res_state = s2,
                            res_trace = res_trace r @ [EvSelect, EvCall i err2]\<rparr>
                         else
                           failoverLoop E serviceMethod args (tries - 1)
                             \<lparr>res_err = err2, res_reply = reply2,
                              res_state = sel_HandleFailed E i s2,
                              res_trace = res_trace r @ [EvSelect, EvCall i err2, EvHandleFailed i]\<rparr>)))
      else r)"
  by pat_completeness auto
termination
  by (relation "measure (\<lambda>(E, serviceMethod, args, tries, r). nat tries)") auto

declare failoverLoop.simps [simp del]

text \<open>
  The \<open>Failtry\<close> loop of \<open>Client.Call\<close>; \<open>invoker\<close> is the variable that survives
  from one iteration to the next.
\<close>

function failtryLoop ::
  "('s, 'i, 'a, 'r) client_env \<Rightarrow> string \<Rightarrow> 'a \<Rightarrow> int \<Rightarrow> 'i option \<Rightarrow> ('s, 'i, 'r) result
    \<Rightarrow> ('s, 'i, 'r) result" where
  "failtryLoop E serviceMethod args tries invoker r =
     (if tries > 0 then
        (let (invoker1, r1) =
           (case invoker of
              None \<Rightarrow>
                (case sel_Select E serviceMethod args (res_state r) of
                   ((inv', err), s1) \<Rightarrow>
                     (inv', r\<lparr>res_err := err, res_state := s1,
                              res_trace := res_trace r @ [EvSelect]\<rparr>))
            | Some i \<Rightarrow> (invoker, r))
         in
           (case invoker1 of
              None \<Rightarrow> failtryLoop E serviceMethod args (tries - 1) invoker1 r1
            | Some i \<Rightarrow>
                (case inv_Call E i serviceMethod args (res_reply r1) (res_state r1) of
                   ((err2, reply2), s2) \<Rightarrow>
                     if err2 = None then
                       \<lparr>res_err = None, res_reply = reply2, res_state = s2,
                        res_trace = res_trace r1 @ [EvCall i err2]\<rparr>
                     else
                       failtryLoop E serviceMethod args (tries - 1) invoker1
                         \<lparr>res_err = err2, res_reply = reply2,
                          res_state = sel_HandleFailed E i s2,
                          res_trace = res_trace r1 @ [EvCall i err2, EvHandleFailed i]\<rparr>)))
      else r)"
  by pat_completeness auto
termination
  by (relation "measure (\<lambda>(E, serviceMethod, args, tries, invoker, r). nat tries)") auto

declare failtryLoop.simps [simp del]

text \<open>
  \<open>for _, invoker := range invokers { invoker.Go(serviceMethod, args, reply, done) }\<close>:
  every invoker of the list is asked to start the call.
\<close>

fun dispatchAll ::
  "('s, 'i, 'a, 'r) client_env \<Rightarrow> string \<Rightarrow> 'a \<Rightarrow> 'i list \<Rightarrow> 's \<Rightarrow> 'i event list
    \<Rightarrow> 's \<times> 'i event list" where
  "dispatchAll E serviceMethod args [] s tr = (s, tr)"
| "dispatchAll E serviceMethod args (invoker # invokers) s tr =
     dispatchAll E serviceMethod args invokers
       (inv_Go E invoker serviceMethod args s) (tr @ [EvGo invoker])"

text \<open>
  The calls started by \<open>Go\<close> complete concurrently. What the collecting loops see of this is
  the sequence of values they receive from the channel \<open>done\<close>: that sequence, \<open>arrivals\<close>,
  is a parameter, so that a theorem about every \<open>arrivals\<close> speaks about every
  interleaving. An element \<open>None\<close> is a nil \<open>*Call\<close>. A receive on the exhausted
  channel blocks for ever: the loop then has no result (\<open>None\<close>).

  The pointer \<open>reply\<close> of \<open>invokerBroadCast\<close> and \<open>invokerForking\<close> is \<open>&reply\<close>, the
  address of the parameter of \<open>Client.Call\<close>: \<open>local\<close> below is the content of that
  parameter, and \<open>*reply = call.Reply\<close> stores there, not in what the caller passed.

  The receiving loop of \<open>invokerBroadCast\<close>; the result is the error and the content of
  the parameter of \<open>Client.Call\<close>.
\<close>

fun broadcastLoop :: "nat \<Rightarrow> 'r Call option list \<Rightarrow> 'r \<Rightarrow> (error \<times> 'r) option" where
  "broadcastLoop 0 arrivals local = Some (None, local)"
| "broadcastLoop (Suc l) [] local = None"
| "broadcastLoop (Suc l) (call # arrivals) local =
     (case call of
        None \<Rightarrow> Some (Some (NewRPCError [''some invokers return Error'']), local)
      | Some c \<Rightarrow>
          if call_Error c \<noteq> None
          then Some (Some (NewRPCError [''some invokers return Error'']), local)
          else broadcastLoop l arrivals (call_Reply c))"

text \<open>
  \<open>invokerBroadCast\<close>: the error returned, the content of the parameter of
  \<open>Client.Call\<close>, the state and the trace.
\<close>

definition invokerBroadCast ::
  "('s, 'i, 'a, 'r) client_env \<Rightarrow> string \<Rightarrow> 'a \<Rightarrow> 'r \<Rightarrow> 's \<Rightarrow> 'r Call option list
    \<Rightarrow> (error \<times> 'r \<times> 's \<times> 'i event list) option" where
  "invokerBroadCast E serviceMethod args local s arrivals =
     (case sel_List E s of
        (invokers, s1) \<Rightarrow>
          if length invokers = 0 then Some (None, local, s1, [EvList])
          else
            (case dispatchAll E serviceMethod args invokers s1 [EvList] of
               (s2, tr) \<Rightarrow>
                 (case broadcastLoop (length invokers) arrivals local of
                    None \<Rightarrow> None
                  | Some (err, local1) \<Rightarrow> Some (err, local1, s2, tr))))"

text \<open>The receiving loop of \<open>invokerForking\<close>.\<close>

fun forkingLoop :: "nat \<Rightarrow> 'r Call option list \<Rightarrow> 'r \<Rightarrow> (error \<times> 'r) option" where
  "forkingLoop 0 arrivals local =
     Some (Some (NewRPCError [''all invokers return Error'']), local)"
| "forkingLoop (Suc l) [] local = None"
| "forkingLoop (Suc l) (call # arrivals) local =
     (case call of
        None \<Rightarrow> Some (Some (NewRPCError [''all invokers return Error'']), local)
      | Some c \<Rightarrow>
          if call_Error c = None then Some (None, call_Reply c)
          else forkingLoop l arrivals local)"

definition invokerForking ::
  "('s, 'i, 'a, 'r) client_env \<Rightarrow> string \<Rightarrow> 'a \<Rightarrow> 'r \<Rightarrow> 's \<Rightarrow> 'r Call option list
    \<Rightarrow> (error \<times> 'r \<times> 's \<times> 'i event list) option" where
  "invokerForking E serviceMethod args local s arrivals =
     (case sel_List E s of
        (invokers, s1) \<Rightarrow>
          if length invokers = 0 then Some (None, local, s1, [EvList])
          else
            (case dispatchAll E serviceMethod args invokers s1 [EvList] of
               (s2, tr) \<Rightarrow>
                 (case forkingLoop (length invokers) arrivals local of
                    None \<Rightarrow> None
                  | Some (err, local1) \<Rightarrow> Some (err, local1, s2, tr))))"

text \<open>
  \<open>Client.Call\<close>; \<open>res_reply\<close> is the reply of the caller as \<open>Call\<close> leaves it. Under
  \<open>Failover\<close> and \<open>Failtry\<close> the invoker called is handed the caller's reply and
  \<open>inv_Call\<close> gives what it leaves there. Under \<open>Broadcast\<close> and \<open>Forking\<close> the
  functions called are handed \<open>&reply\<close>: what they store there is dropped when \<open>Call\<close>
  returns, and \<open>Call\<close> itself stores nothing in the reply of the caller (what the invokers
  started with \<open>Go\<close> do with the address they were given belongs to the state \<open>'s\<close>).
  The two loops start from \<open>err = nil\<close> and \<open>invoker = nil\<close>; a fail mode that is none of
  the four tested ones reaches the final \<open>return\<close> with them.
\<close>

definition Client_Call ::
  "('s, 'i, 'a, 'r) client_env \<Rightarrow> Client \<Rightarrow> string \<Rightarrow> 'a \<Rightarrow> 'r \<Rightarrow> 's \<Rightarrow> 'r Call option list
    \<Rightarrow> ('s, 'i, 'r) result option" where
  "Client_Call E client serviceMethod args reply s arrivals =
     (if FailMode client = Broadcast then
        (case invokerBroadCast E serviceMethod args reply s arrivals of
           None \<Rightarrow> None
         | Some (err, local, s1, tr) \<Rightarrow>
             Some \<lparr>res_err = err, res_reply = reply, res_state = s1, res_trace = tr\<rparr>)
      else if FailMode client = Forking then
        (case invokerForking E serviceMethod args reply s arrivals of
           None \<Rightarrow> None
         | Some (err, local, s1, tr) \<Rightarrow>
             Some \<lparr>res_err = err, res_reply = reply, res_state = s1, res_trace = tr\<rparr>)
      else if FailMode client = Failover then
        Some (failoverLoop E serviceMethod args (MaxTry client)
                \<lparr>res_err = None, res_reply = reply, res_state = s, res_trace = []\<rparr>)
      else if FailMode client = Failtry then
        Some (failtryLoop E serviceMethod args (MaxTry client) None
                \<lparr>res_err = None, res_reply = reply, res_state = s, res_trace = []\<rparr>)
      else Some \<lparr>res_err = None, res_reply = reply, res_state = s, res_trace = []\<rparr>)"


subsection \<open>Reading a trace\<close>

text \<open>The invokers on which \<open>Go\<close> was called, in order.\<close>

fun dispatched :: "'i event list \<Rightarrow> 'i list" where
  "dispatched [] = []"
| "dispatched (EvGo i # tr) = i # dispatched tr"
| "dispatched (ev # tr) = dispatched tr"


subsection \<open>Example selectors\<close>


text \<open>
  Two endpoints for \<open>Broadcast\<close> and \<open>Forking\<close>: the state is the list of the invokers
  on which \<open>Go\<close> was called, in order.
\<close>

definition fanEnv :: "(nat list, nat, unit, int) client_env" where
  "fanEnv =
     \<lparr>sel_Select = (\<lambda>serviceMethod args s. ((Some 0, None), s)),
      sel_HandleFailed = (\<lambda>i s. s),
      sel_List = (\<lambda>s. ([0, 1], s)),
      inv_Call = (\<lambda>i serviceMethod args reply s. ((Some ''connection refused'', reply), s)),
      inv_Go = (\<lambda>i serviceMethod args s. s @ [i])\<rparr>"

text \<open>One healthy endpoint, which answers every call with 56.\<close>

definition upEnv :: "(nat, nat, unit, int) client_env" where
  "upEnv =
     \<lparr>sel_Select = (\<lambda>serviceMethod args s. ((Some 0, None), s)),
      sel_HandleFailed = (\<lambda>i s. Suc s),
      sel_List = (\<lambda>s. ([0], s)),
      inv_Call = (\<lambda>i serviceMethod args reply s. ((None, 56), s)),
      inv_Go = (\<lambda>i serviceMethod args s. s)\<rparr>"

text \<open>A selector with no endpoint.\<close>

definition emptyEnv :: "(nat, nat, unit, int) client_env" where
  "emptyEnv =
     \<lparr>sel_Select = (\<lambda>serviceMethod args s. ((None, Some ''no invoker''), s)),
      sel_HandleFailed = (\<lambda>i s. s),
      sel_List = (\<lambda>s. ([], s)),
      inv_Call = (\<lambda>i serviceMethod args reply s. ((Some ''connection refused'', reply), s)),
      inv_Go = (\<lambda>i serviceMethod args s. s)\<rparr>"

section \<open>Server (server/server.go, server/server_context.go)\<close>

subsection \<open>Error kinds\<close>

text \<open>
  Modelled from the spec: package \<open>common\<close> is not among the sources. The numeric codes
  of \<open>common.ErrorType\<close> are taken from the list of error kinds in section 7 of the
  spec; the zero value of the type is 0.
\<close>

definition ErrorTypeServerPreReadRequestHeader :: int where
  "ErrorTypeServerPreReadRequestHeader = 1"

definition ErrorTypeServerReadRequestHeader :: int where
  "ErrorTypeServerReadRequestHeader = 2"

definition ErrorTypeServerInvalidServiceMethod :: int where
  "ErrorTypeServerInvalidServiceMethod = 3"

definition ErrorTypeServerPostReadRequestHeader :: int where
  "ErrorTypeServerPostReadRequestHeader = 4"

definition ErrorTypeServerNotFoundService :: int where
  "ErrorTypeServerNotFoundService = 5"

definition ErrorTypeServerPreReadRequestBody :: int where
  "ErrorTypeServerPreReadRequestBody = 6"

definition ErrorTypeServerReadRequestBody :: int where
  "ErrorTypeServerReadRequestBody = 7"

definition ErrorTypeServerPostReadRequestBody :: int where
  "ErrorTypeServerPostReadRequestBody = 8"

definition ErrorTypeServerPreWriteResponse :: int where
  "ErrorTypeServerPreWriteResponse = 9"

definition ErrorTypeServerPostWriteResponse :: int where
  "ErrorTypeServerPostWriteResponse = 10"

lemmas ErrorType_defs =
  ErrorTypeServerPreReadRequestHeader_def ErrorTypeServerReadRequestHeader_def
  ErrorTypeServerInvalidServiceMethod_def ErrorTypeServerPostReadRequestHeader_def
  ErrorTypeServerNotFoundService_def ErrorTypeServerPreReadRequestBody_def
  ErrorTypeServerReadRequestBody_def ErrorTypeServerPostReadRequestBody_def
  ErrorTypeServerPreWriteResponse_def ErrorTypeServerPostWriteResponse_def

text \<open>
  Modelled from the spec: \<open>common.NewError(s)\<close> is an error whose message is \<open>s\<close>
  (scenario 2 of the spec reads the text behind the code prefix as the message).
\<close>

definition NewError :: "string \<Rightarrow> string" where
  "NewError m = m"

text \<open>The two sentinel errors of package \<open>io\<close> that \<open>readRequestHeader\<close> compares with.\<close>

definition io_EOF :: string where
  "io_EOF = ''EOF''"

definition io_ErrUnexpectedEOF :: string where
  "io_ErrUnexpectedEOF = ''unexpected EOF''"

subsection \<open>\<open>strconv.Itoa\<close>\<close>

definition digit :: "nat \<Rightarrow> char" where
  "digit n = ''0123456789'' ! n"

function decimal :: "nat \<Rightarrow> string" where
  "decimal n = (if n < 10 then [digit n] else decimal (n div 10) @ [digit (n mod 10)])"
  by pat_completeness auto
termination
  by (relation "measure (\<lambda>n. n)") auto

declare decimal.simps [simp del]

definition Itoa :: "int \<Rightarrow> string" where
  "Itoa i = (if i < 0 then CHR ''-'' # decimal (nat (- i)) else decimal (nat i))"

subsection \<open>Data\<close>

text \<open>\<open>rpc.Request\<close> and \<open>rpc.Response\<close> of package \<open>net/rpc\<close>.\<close>

record Request =
  req_ServiceMethod :: string
  req_Seq :: "64 word"

record Response =
  resp_ServiceMethod :: string
  resp_Seq :: "64 word"
  resp_Error :: string

text \<open>
  The \<open>body interface{}\<close> handed to hooks and codec: nil, the placeholder
  \<open>invalidRequest\<close>, or a value.
\<close>

datatype 'v body = NilBody | InvalidRequest | Value 'v

text \<open>
  \<open>IServerPluginContainer\<close> is an interface whose implementation is not among the
  sources: its hooks are parameters. A hook is modelled by the error it returns, as a
  function of the request header of the context it is fired for; what a hook may store in
  the context (\<open>SetPath\<close>, \<open>SetData\<close>) is not followed.
\<close>

record plugins =
  doPreReadRequestHeader :: "Request \<Rightarrow> error"
  doPostReadRequestHeader :: "Request \<Rightarrow> error"
  doPreReadRequestBody :: "Request \<Rightarrow> error"
  doPostReadRequestBody :: "Request \<Rightarrow> error"
  doPreWriteResponse :: "Request \<Rightarrow> error"
  doPostWriteResponse :: "Request \<Rightarrow> error"
  doRegister :: "string \<Rightarrow> string \<Rightarrow> string list \<Rightarrow> error"

text \<open>
  \<open>IService\<close> is an interface too. A service has its path, the receiver it was built
  from (by name), its plugin container, fresh values of its argument and reply types, and
  its handler: \<open>svc_Call argv replyv\<close> is the error of \<open>Service.Call\<close> and the reply
  value it leaves. \<open>'v\<close> is the type of argument and reply values.
\<close>

record 'v Service =
  svc_path :: string
  svc_rcvr :: string
  svc_pluginContainer :: plugins
  svc_newArg :: 'v
  svc_newReply :: 'v
  svc_Call :: "'v \<Rightarrow> 'v \<Rightarrow> error \<times> 'v"

text \<open>
  The \<open>Context\<close> struct. \<open>codecConn\<close> is the connection by number, \<open>None\<close> for nil;
  \<open>argv\<close> and \<open>replyv\<close> are \<open>None\<close> for the zero \<open>reflect.Value\<close>; \<open>data\<close> is
  \<open>None\<close> for the nil map. The \<open>server\<close> pointer and the lock are left out.
\<close>

record 'v Context =
  ctx_codecConn :: "nat option"
  ctx_req :: Request
  ctx_resp :: Response
  ctx_service :: "'v Service option"
  ctx_argv :: "'v option"
  ctx_replyv :: "'v option"
  ctx_path :: string
  ctx_query :: "(string \<times> string list) list"
  ctx_data :: "(string \<times> string) list option"
  ctx_rpcErrorType :: int

text \<open>
  \<open>IServiceBuilder\<close>, an interface: \<open>NewServices\<close> builds the services of a receiver
  under path segments, \<open>URIParse\<close> splits a service method into path and query.
\<close>

record 'v ServiceBuilder =
  NewServices :: "string \<Rightarrow> string list \<Rightarrow> 'v Service list \<times> error"
  URIParse :: "string \<Rightarrow> string \<times> (string \<times> string list) list \<times> error"

text \<open>
  The \<open>Server\<close> struct, without its timeouts, listener and lock. \<open>contextPool\<close> is
  the \<open>sync.Pool\<close>: the contexts put back, the last one first.
\<close>

record 'v Server =
  srv_PluginContainer :: plugins
  srv_ServiceBuilder :: "'v ServiceBuilder"
  srv_serviceMap :: "string \<rightharpoonup> 'v Service"
  srv_routers :: "string list"
  srv_contextPool :: "'v Context list"

text \<open>
  \<open>ServerCodecConn\<close>, an interface: the codec's operations are functions on the state
  \<open>'c\<close> of the connection. A header read yields the header, one of the two end-of-stream
  errors of package \<open>io\<close>, or another error. A body read is given the destination (nil
  to discard) and yields its error and, on success with a destination, the decoded value.
\<close>

datatype hdr_read = HdrOk "64 word" string | HdrEOF | HdrUnexpectedEOF | HdrErr string

record ('c, 'v) codec =
  codec_ReadRequestHeader :: "'c \<Rightarrow> hdr_read \<times> 'c"
  codec_ReadRequestBody :: "'v body \<Rightarrow> 'c \<Rightarrow> (error \<times> 'v option) \<times> 'c"
  codec_WriteResponse :: "Response \<Rightarrow> 'v body \<Rightarrow> 'c \<Rightarrow> error \<times> 'c"
  codec_Close :: "'c \<Rightarrow> 'c"

text \<open>The calls made on the codec of a connection, in program order.\<close>

datatype 'v conn_event =
  ConnReadHeader
  | ConnReadBody "'v body"
  | ConnWriteResponse Response "'v body"
  | ConnClose

text \<open>
  What the functions below pass along: the server, the state of the connection, the calls
  made on its codec so far, and the contexts whose handlers were started with \<open>go\<close> and
  have not written their response yet.
\<close>

record ('c, 'v) world =
  w_server :: "'v Server"
  w_conn :: 'c
  w_trace :: "'v conn_event list"
  w_running :: "'v Context list"

subsection \<open>Registration\<close>

text \<open>
  The errors \<open>register\<close> collects: \<open>common.ErrServiceAlreadyExists.Format(spath)\<close>
  and \<open>common.NewRPCError\<close> of a plugin's error; and what it returns.
\<close>

datatype reg_item = ErrServiceAlreadyExists string | RPCError string

datatype reg_error = RegRPCError string | MultiError "reg_item list"

text \<open>
  The body of the loop over the services in \<open>Server.register\<close>. The notices it logs
  about plugins are left out. In \<open>register\<close> the text of
  \<open>reflect.ValueOf(rcvr).String()\<close> is the name of the receiver.
\<close>

definition registerService ::
  "string \<Rightarrow> plugins \<Rightarrow> string list \<Rightarrow> 'v Service \<Rightarrow> reg_item list \<times> 'v Server
    \<Rightarrow> reg_item list \<times> 'v Server" where
  "registerService rcvr p metadata service acc =
     (case acc of (errs, server) \<Rightarrow>
        let spath = svc_path service;
            errs1 = (if srv_serviceMap server spath \<noteq> None
                     then errs @ [ErrServiceAlreadyExists spath] else errs);
            errs2 = (case doRegister (srv_PluginContainer server) spath rcvr metadata of
                       Some e \<Rightarrow> errs1 @ [RPCError (NewRPCError [e])]
                     | None \<Rightarrow> errs1);
            errs3 = (case doRegister p spath rcvr metadata of
                       Some e \<Rightarrow> errs2 @ [RPCError (NewRPCError [e])]
                     | None \<Rightarrow> errs2);
            service1 = service\<lparr>svc_pluginContainer := p\<rparr>
        in (errs3,
            server\<lparr>srv_routers := srv_routers server @ [spath],
                   srv_serviceMap := (srv_serviceMap server)(spath \<mapsto> service1)\<rparr>))"

definition register ::
  "string list \<Rightarrow> string \<Rightarrow> plugins \<Rightarrow> string list \<Rightarrow> 'v Server
    \<Rightarrow> reg_error option \<times> 'v Server" where
  "register pathSegments rcvr p metadata server =
     (case NewServices (srv_ServiceBuilder server) rcvr pathSegments of
        (services, err) \<Rightarrow>
          (case err of
             Some e \<Rightarrow> (Some (RegRPCError (NewRPCError [e])), server)
           | None \<Rightarrow>
               if length services = 0 then
                 (Some (RegRPCError
                    (NewRPCError [''Can not register invalid service: '' @ [CHR 0x27] @ rcvr
                                    @ [CHR 0x27]])),
                  server)
               else
                 (case fold (registerService rcvr p metadata) services ([], server) of
                    (errs, server1) \<Rightarrow>
                      if length errs > 0 then (Some (MultiError errs), server1)
                      else (None, server1\<lparr>srv_routers := sort (srv_routers server1)\<rparr>))))"

subsection \<open>The context pool\<close>

text \<open>\<open>server.contextPool.New\<close>: a context with fresh request and response.\<close>

definition newContext :: "'v Context" where
  "newContext =
     \<lparr>ctx_codecConn = None,
      ctx_req = \<lparr>req_ServiceMethod = [], req_Seq = 0\<rparr>,
      ctx_resp = \<lparr>resp_ServiceMethod = [], resp_Seq = 0, resp_Error = []\<rparr>,
      ctx_service = None, ctx_argv = None, ctx_replyv = None, ctx_path = [],
      ctx_query = [], ctx_data = None, ctx_rpcErrorType = 0\<rparr>"

text \<open>
  \<open>sync.Pool.Get\<close>: a context that was put back, if there is one, or else a new one.
\<close>

definition poolGet :: "'v Context list \<Rightarrow> 'v Context \<times> 'v Context list" where
  "poolGet pool = (case pool of [] \<Rightarrow> (newContext, []) | ctx # rest \<Rightarrow> (ctx, rest))"

definition getContext :: "nat \<Rightarrow> 'v Server \<Rightarrow> 'v Context \<times> 'v Server" where
  "getContext conn server =
     (case poolGet (srv_contextPool server) of
        (ctx, pool) \<Rightarrow>
          (ctx\<lparr>ctx_req := \<lparr>req_ServiceMethod = [], req_Seq = 0\<rparr>,
               ctx_resp := \<lparr>resp_ServiceMethod = [], resp_Seq = 0, resp_Error = []\<rparr>,
               ctx_data := Some [],
               ctx_service := None,
               ctx_codecConn := Some conn,
               ctx_query := [],
               ctx_argv := None,
               ctx_replyv := None\<rparr>,
           server\<lparr>srv_contextPool := pool\<rparr>))"

definition putContext :: "'v Context \<Rightarrow> 'v Server \<Rightarrow> 'v Server" where
  "putContext ctx server =
     server\<lparr>srv_contextPool := ctx\<lparr>ctx_data := None, ctx_codecConn := None\<rparr>
                                 # srv_contextPool server\<rparr>"

subsection \<open>Reading a request\<close>

definition setErrorType :: "int \<Rightarrow> 'v Context \<Rightarrow> 'v Context" where
  "setErrorType t ctx = ctx\<lparr>ctx_rpcErrorType := t\<rparr>"

definition cantFindService :: "string \<Rightarrow> string" where
  "cantFindService path = ''can'' @ [CHR 0x27] @ ''t find service '' @ [CHR 0x27] @ path @ [CHR 0x27]"

text \<open>
  \<open>Context.readRequestHeader\<close>; the result is \<open>(keepReading, notSend, err)\<close>. Setting
  the deadlines of the connection is left out.
\<close>

definition readRequestHeader ::
  "('c, 'v) codec \<Rightarrow> 'v Context \<Rightarrow> ('c, 'v) world
    \<Rightarrow> (bool \<times> bool \<times> error) \<times> 'v Context \<times> ('c, 'v) world" where
  "readRequestHeader C ctx w =
     (case doPreReadRequestHeader (srv_PluginContainer (w_server w)) (ctx_req ctx) of
        Some e \<Rightarrow>
          ((False, False, Some e), setErrorType ErrorTypeServerPreReadRequestHeader ctx, w)
      | None \<Rightarrow>
          (case codec_ReadRequestHeader C (w_conn w) of
             (h, c1) \<Rightarrow>
               let w1 = w\<lparr>w_conn := c1, w_trace := w_trace w @ [ConnReadHeader]\<rparr> in
               (case h of
                  HdrEOF \<Rightarrow>
                    ((False, True, Some io_EOF),
                     setErrorType ErrorTypeServerReadRequestHeader ctx, w1)
                | HdrUnexpectedEOF \<Rightarrow>
                    ((False, True, Some io_ErrUnexpectedEOF),
                     setErrorType ErrorTypeServerReadRequestHeader ctx, w1)
                | HdrErr m \<Rightarrow>
                    ((False, False, Some (NewError (''ReadRequestHeader: '' @ m))),
                     setErrorType ErrorTypeServerReadRequestHeader ctx, w1)
                | HdrOk seq serviceMethod \<Rightarrow>
                    (case URIParse (srv_ServiceBuilder (w_server w)) serviceMethod of
                       (path, query, perr) \<Rightarrow>
                         let ctx1 = ctx\<lparr>ctx_req := \<lparr>req_ServiceMethod = serviceMethod,
                                                     req_Seq = seq\<rparr>,
                                         ctx_path := path, ctx_query := query\<rparr> in
                         (case perr of
                            Some e \<Rightarrow>
                              ((True, False, Some (NewError e)),
                               setErrorType ErrorTypeServerInvalidServiceMethod ctx1, w1)
                          | None \<Rightarrow>
                              (case doPostReadRequestHeader (srv_PluginContainer (w_server w))
                                      (ctx_req ctx1) of
                                 Some e \<Rightarrow>
                                   ((True, False, Some e),
                                    setErrorType ErrorTypeServerPostReadRequestHeader ctx1, w1)
                               | None \<Rightarrow>
                                   let ctx2 = ctx1\<lparr>ctx_service :=
                                                srv_serviceMap (w_server w) (ctx_path ctx1)\<rparr> in
                                   if ctx_service ctx2 = None then
                                     ((True, False,
                                       Some (NewError (cantFindService (ctx_path ctx2)))),
                                      setErrorType ErrorTypeServerNotFoundService ctx2, w1)
                                   else ((True, False, None), ctx2, w1)))))))"

text \<open>
  \<open>Context.readRequestBody\<close>; the result is the error and, when the codec decoded into a
  destination, the value decoded.
\<close>

definition readRequestBody ::
  "('c, 'v) codec \<Rightarrow> 'v body \<Rightarrow> 'v Context \<Rightarrow> ('c, 'v) world
    \<Rightarrow> (error \<times> 'v option) \<times> 'v Context \<times> ('c, 'v) world" where
  "readRequestBody C body ctx w =
     (let err0 = doPreReadRequestBody (srv_PluginContainer (w_server w)) (ctx_req ctx);
          err1 = (case ctx_service ctx of
                    Some service \<Rightarrow>
                      if err0 = None
                      then doPreReadRequestBody (svc_pluginContainer service) (ctx_req ctx)
                      else err0
                  | None \<Rightarrow> err0)
      in
        if err1 \<noteq> None then
          ((err1, None), setErrorType ErrorTypeServerPreReadRequestBody ctx, w)
        else
          (case codec_ReadRequestBody C body (w_conn w) of
             ((cerr, decoded), c1) \<Rightarrow>
               let w1 = w\<lparr>w_conn := c1, w_trace := w_trace w @ [ConnReadBody body]\<rparr> in
               (case cerr of
                  Some e \<Rightarrow>
                    ((Some (NewError (''ReadRequestBody: '' @ e)), None),
                     setErrorType ErrorTypeServerReadRequestBody ctx, w1)
                | None \<Rightarrow>
                    let err2 = (case ctx_service ctx of
                                  Some service \<Rightarrow>
                                    doPostReadRequestBody (svc_pluginContainer service)
                                      (ctx_req ctx)
                                | None \<Rightarrow> None);
                        err3 = (if err2 = None
                                then doPostReadRequestBody (srv_PluginContainer (w_server w))
                                       (ctx_req ctx)
                                else err2)
                    in
                      if err3 \<noteq> None then
                        ((err3, decoded),
                         setErrorType ErrorTypeServerPostReadRequestBody ctx, w1)
                      else ((None, decoded), ctx, w1))))"

text \<open>
  \<open>Server.readRequest\<close>. The argument and the reply are fresh values of the service's
  types (whether the type is a pointer only changes how they are held). \<open>None\<close> is the
  panic of \<open>ctx.service.GetArgType()\<close> on a nil service.
\<close>

definition readRequest ::
  "('c, 'v) codec \<Rightarrow> 'v Context \<Rightarrow> ('c, 'v) world
    \<Rightarrow> ((bool \<times> bool \<times> error) \<times> 'v Context \<times> ('c, 'v) world) option" where
  "readRequest C ctx w =
     (case readRequestHeader C ctx w of
        ((keepReading, notSend, err), ctx1, w1) \<Rightarrow>
          if err \<noteq> None then
            if \<not> keepReading then Some ((keepReading, notSend, err), ctx1, w1)
            else
              (case readRequestBody C NilBody ctx1 w1 of
                 (discarded, ctx2, w2) \<Rightarrow> Some ((keepReading, notSend, err), ctx2, w2))
          else
            (case ctx_service ctx1 of
               None \<Rightarrow> None
             | Some service \<Rightarrow>
                 let ctx2 = ctx1\<lparr>ctx_argv := Some (svc_newArg service)\<rparr> in
                 (case readRequestBody C (Value (svc_newArg service)) ctx2 w1 of
                    ((berr, decoded), ctx3, w2) \<Rightarrow>
                      let ctx4 = (case decoded of
                                    Some v \<Rightarrow> ctx3\<lparr>ctx_argv := Some v\<rparr>
                                  | None \<Rightarrow> ctx3) in
                      if berr \<noteq> None then Some ((keepReading, notSend, berr), ctx4, w2)
                      else
                        Some ((keepReading, notSend, berr),
                              ctx4\<lparr>ctx_replyv := Some (svc_newReply service)\<rparr>, w2))))"

subsection \<open>Writing a response\<close>

text \<open>\<open>Context.writeResponse\<close>.\<close>

definition writeResponse ::
  "('c, 'v) codec \<Rightarrow> 'v body \<Rightarrow> 'v Context \<Rightarrow> ('c, 'v) world
    \<Rightarrow> error \<times> 'v Context \<times> ('c, 'v) world" where
  "writeResponse C body ctx w =
     (let err0 = doPreWriteResponse (srv_PluginContainer (w_server w)) (ctx_req ctx);
          err1 = (case ctx_service ctx of
                    Some service \<Rightarrow>
                      if err0 = None
                      then doPreWriteResponse (svc_pluginContainer service) (ctx_req ctx)
                      else err0
                  | None \<Rightarrow> err0);
          (ctx1, body1) =
             (case err1 of
                Some e \<Rightarrow>
                  ((setErrorType ErrorTypeServerPreWriteResponse ctx)
                     \<lparr>ctx_resp := (ctx_resp ctx)\<lparr>resp_Error := e\<rparr>\<rparr>,
                   NilBody)
              | None \<Rightarrow> (ctx, body));
          ctx2 = (if length (resp_Error (ctx_resp ctx1)) > 0
                  then ctx1\<lparr>ctx_resp := (ctx_resp ctx1)
                         \<lparr>resp_Error := Itoa (ctx_rpcErrorType ctx1)
                                          @ resp_Error (ctx_resp ctx1)\<rparr>\<rparr>
                  else ctx1)
      in
        (case codec_WriteResponse C (ctx_resp ctx2) body1 (w_conn w) of
           (werr, c1) \<Rightarrow>
             let w1 = w\<lparr>w_conn := c1,
                        w_trace := w_trace w @ [ConnWriteResponse (ctx_resp ctx2) body1]\<rparr> in
             (case werr of
                Some e \<Rightarrow> (Some (NewError (''WriteResponse: '' @ e)), ctx2, w1)
              | None \<Rightarrow>
                  let err2 = (case ctx_service ctx2 of
                                Some service \<Rightarrow>
                                  doPostWriteResponse (svc_pluginContainer service)
                                    (ctx_req ctx2)
                              | None \<Rightarrow> None);
                      err3 = (if err2 = None
                              then doPostWriteResponse (srv_PluginContainer (w_server w))
                                     (ctx_req ctx2)
                              else err2)
                  in (err3, ctx2, w1))))"

text \<open>
  \<open>Server.sendResponse\<close>. \<open>None\<close> is the panic of \<open>ctx.replyv.Interface()\<close> on the
  zero \<open>reflect.Value\<close>. The error of \<open>writeResponse\<close> is only logged.
\<close>

definition sendResponse ::
  "('c, 'v) codec \<Rightarrow> 'v Context \<Rightarrow> string \<Rightarrow> ('c, 'v) world \<Rightarrow> ('c, 'v) world option" where
  "sendResponse C ctx errmsg w =
     (let ctx1 = ctx\<lparr>ctx_resp := (ctx_resp ctx)
                   \<lparr>resp_ServiceMethod := req_ServiceMethod (ctx_req ctx)\<rparr>\<rparr>;
          chosen =
            (if errmsg \<noteq> []
             then Some (ctx1\<lparr>ctx_resp := (ctx_resp ctx1)\<lparr>resp_Error := errmsg\<rparr>\<rparr>,
                        InvalidRequest)
             else (case ctx_replyv ctx1 of
                     None \<Rightarrow> None
                   | Some v \<Rightarrow> Some (ctx1, Value v)))
      in
        (case chosen of
           None \<Rightarrow> None
         | Some (ctx2, reply) \<Rightarrow>
             let ctx3 = ctx2\<lparr>ctx_resp := (ctx_resp ctx2)\<lparr>resp_Seq := req_Seq (ctx_req ctx2)\<rparr>\<rparr> in
             (case writeResponse C reply ctx3 w of
                (werr, ctx4, w1) \<Rightarrow>
                  Some (w1\<lparr>w_server := putContext ctx4 (w_server w1)\<rparr>))))"

text \<open>
  \<open>Server.call\<close>: the handler, then the response. \<open>None\<close> is a panic: a nil service,
  or an invalid argument or reply value.
\<close>

definition call ::
  "('c, 'v) codec \<Rightarrow> 'v Context \<Rightarrow> ('c, 'v) world \<Rightarrow> ('c, 'v) world option" where
  "call C ctx w =
     (case ctx_service ctx of
        None \<Rightarrow> None
      | Some service \<Rightarrow>
          (case ctx_argv ctx of
             None \<Rightarrow> None
           | Some argv \<Rightarrow>
               (case ctx_replyv ctx of
                  None \<Rightarrow> None
                | Some replyv \<Rightarrow>
                    (case svc_Call service argv replyv of
                       (err, replyv1) \<Rightarrow>
                         sendResponse C (ctx\<lparr>ctx_replyv := Some replyv1\<rparr>)
                           (case err of None \<Rightarrow> [] | Some e \<Rightarrow> e) w))))"

subsection \<open>Serving\<close>

text \<open>
  \<open>Server.ServeRequest\<close>: one request, served synchronously; the result is the error
  returned. \<open>None\<close> is a panic.
\<close>

definition ServeRequest ::
  "('c, 'v) codec \<Rightarrow> nat \<Rightarrow> ('c, 'v) world \<Rightarrow> (error \<times> ('c, 'v) world) option" where
  "ServeRequest C conn w =
     (case getContext conn (w_server w) of
        (ctx, server1) \<Rightarrow>
          (case readRequest C ctx (w\<lparr>w_server := server1\<rparr>) of
             None \<Rightarrow> None
           | Some ((keepReading, notSend, err), ctx1, w1) \<Rightarrow>
               (case err of
                  Some e \<Rightarrow>
                    if \<not> keepReading then Some (err, w1)
                    else if \<not> notSend then
                      (case sendResponse C ctx1 e w1 of
                         None \<Rightarrow> None
                       | Some w2 \<Rightarrow> Some (err, w2))
                    else Some (err, w1\<lparr>w_server := putContext ctx1 (w_server w1)\<rparr>)
                | None \<Rightarrow>
                    (case call C ctx1 w1 of
                       None \<Rightarrow> None
                     | Some w2 \<Rightarrow> Some (None, w2)))))"

text \<open>
  One iteration of the loop of \<open>Server.ServeConn\<close>: the loop goes on, is left with
  \<open>break\<close>, or the goroutine panics. \<open>go server.call(sending, ctx)\<close> puts the context
  among the running ones; its handler writes its response later.
\<close>

datatype ('c, 'v) step = Continue "('c, 'v) world" | Break "('c, 'v) world" | Panicked

definition ServeConn_iteration ::
  "('c, 'v) codec \<Rightarrow> nat \<Rightarrow> ('c, 'v) world \<Rightarrow> ('c, 'v) step" where
  "ServeConn_iteration C conn w =
     (case getContext conn (w_server w) of
        (ctx, server1) \<Rightarrow>
          (case readRequest C ctx (w\<lparr>w_server := server1\<rparr>) of
             None \<Rightarrow> Panicked
           | Some ((keepReading, notSend, err), ctx1, w1) \<Rightarrow>
               (case err of
                  Some e \<Rightarrow>
                    if \<not> keepReading then
                      Break (w1\<lparr>w_server := putContext ctx1 (w_server w1)\<rparr>)
                    else if \<not> notSend then
                      (case sendResponse C ctx1 e w1 of
                         None \<Rightarrow> Panicked
                       | Some w2 \<Rightarrow> Continue w2)
                    else Continue (w1\<lparr>w_server := putContext ctx1 (w_server w1)\<rparr>)
                | None \<Rightarrow> Continue (w1\<lparr>w_running := w_running w1 @ [ctx1]\<rparr>))))"

text \<open>
  \<open>Server.ServeConn\<close>: the loop, then \<open>conn.Close()\<close>; the codec \<open>C\<close> is the one
  bound to the connection. The loop ends only when a header read fails, so on a connection
  that never does it runs for ever: the function has no value there. \<open>Some None\<close> is a
  panic.
\<close>

partial_function (option) ServeConn ::
  "('c, 'v) codec \<Rightarrow> nat \<Rightarrow> ('c, 'v) world \<Rightarrow> ('c, 'v) world option option" where
  "ServeConn C conn w =
     (case ServeConn_iteration C conn w of
        Continue w1 \<Rightarrow> ServeConn C conn w1
      | Break w1 \<Rightarrow>
          Some (Some (w1\<lparr>w_conn := codec_Close C (w_conn w1),
                          w_trace := w_trace w1 @ [ConnClose]\<rparr>))
      | Panicked \<Rightarrow> Some None)"

text \<open>
  What \<open>readRequest\<close> returns in the iteration of \<open>ServeConn\<close> that starts in
  \<open>w\<close>: \<open>(keepReading, notSend, err)\<close>.
\<close>

definition requestOutcome ::
  "('c, 'v) codec \<Rightarrow> nat \<Rightarrow> ('c, 'v) world \<Rightarrow> (bool \<times> bool \<times> error) option" where
  "requestOutcome C conn w =
     (case getContext conn (w_server w) of
        (ctx, server1) \<Rightarrow> map_option fst (readRequest C ctx (w\<lparr>w_server := server1\<rparr>)))"

subsection \<open>An example server\<close>

text \<open>A plugin container without plugins: no hook fails.\<close>

definition noPlugins :: plugins where
  "noPlugins =
     \<lparr>doPreReadRequestHeader = (\<lambda>req. None),
      doPostReadRequestHeader = (\<lambda>req. None),
      doPreReadRequestBody = (\<lambda>req. None),
      doPostReadRequestBody = (\<lambda>req. None),
      doPreWriteResponse = (\<lambda>req. None),
      doPostWriteResponse = (\<lambda>req. None),
      doRegister = (\<lambda>path rcvr metadata. None)\<rparr>"

text \<open>A container whose one plugin rejects every request body before it is read.\<close>

definition bodyGuard :: plugins where
  "bodyGuard = noPlugins\<lparr>doPreReadRequestBody := (\<lambda>req. Some ''body refused'')\<rparr>"

text \<open>
  Two services over integers: \<open>double\<close> answers twice its argument, \<open>error\<close> fails
  with the message \<open>ERROR\<close>.
\<close>

definition doubleService :: "string \<Rightarrow> string \<Rightarrow> int Service" where
  "doubleService path rcvr =
     \<lparr>svc_path = path, svc_rcvr = rcvr, svc_pluginContainer = noPlugins,
      svc_newArg = 0, svc_newReply = 0,
      svc_Call = (\<lambda>argv replyv. (None, 2 * argv))\<rparr>"

definition errorService :: "string \<Rightarrow> string \<Rightarrow> int Service" where
  "errorService path rcvr =
     \<lparr>svc_path = path, svc_rcvr = rcvr, svc_pluginContainer = noPlugins,
      svc_newArg = 0, svc_newReply = 0,
      svc_Call = (\<lambda>argv replyv. (Some ''ERROR'', replyv))\<rparr>"

text \<open>
  A builder that joins the path segments with slashes, builds the method \<open>double\<close> for
  every receiver, and takes a whole service method as the path.
\<close>

definition joinBuilder :: "int ServiceBuilder" where
  "joinBuilder =
     \<lparr>NewServices = (\<lambda>rcvr pathSegments.
        ([doubleService (concat (map (\<lambda>seg. CHR ''/'' # seg) pathSegments) @ ''/double'') rcvr],
         None)),
      URIParse = (\<lambda>serviceMethod. (serviceMethod, [], None))\<rparr>"

definition emptyServer :: "int Server" where
  "emptyServer =
     \<lparr>srv_PluginContainer = noPlugins, srv_ServiceBuilder = joinBuilder,
      srv_serviceMap = Map.empty, srv_routers = [], srv_contextPool = []\<rparr>"

definition arithServer :: "int Server" where
  "arithServer =
     emptyServer\<lparr>srv_serviceMap :=
       [''/arith/double'' \<mapsto> doubleService ''/arith/double'' ''Arith'',
        ''/arith/error'' \<mapsto> errorService ''/arith/error'' ''Arith''],
       srv_routers := [''/arith/double'', ''/arith/error'']\<rparr>"

text \<open>
  A codec over a connection that is the list of the frames still to be read: a header read
  takes a header frame, a body read takes a body frame, the end of the list is the end of
  the stream, and every response is accepted.
\<close>

datatype frame = HeaderFrame "64 word" string | BodyFrame int

definition frameCodec :: "(frame list, int) codec" where
  "frameCodec =
     \<lparr>codec_ReadRequestHeader = (\<lambda>c.
        case c of
          [] \<Rightarrow> (HdrEOF, [])
        | HeaderFrame seq serviceMethod # rest \<Rightarrow> (HdrOk seq serviceMethod, rest)
        | BodyFrame v # rest \<Rightarrow> (HdrErr ''not a header'', rest)),
      codec_ReadRequestBody = (\<lambda>body c.
        case c of
          [] \<Rightarrow> ((Some ''EOF'', None), [])
        | HeaderFrame seq serviceMethod # rest \<Rightarrow> ((Some ''not a body'', None), rest)
        | BodyFrame v # rest \<Rightarrow>
            ((None, case body of Value dest \<Rightarrow> Some v | NilBody \<Rightarrow> None
                    | InvalidRequest \<Rightarrow> None), rest)),
      codec_WriteResponse = (\<lambda>resp body c. (None, c)),
      codec_Close = (\<lambda>c. [])\<rparr>"

definition startWorld :: "int Server \<Rightarrow> frame list \<Rightarrow> (frame list, int) world" where
  "startWorld server frames =
     \<lparr>w_server = server, w_conn = frames, w_trace = [], w_running = []\<rparr>"

section \<open>Colfer header (the generated \<open>Header\<close> of package colfer)\<close>

type_synonym byte = "8 word"

definition ColferSizeMax :: nat where
  "ColferSizeMax = 16 * 1024 * 1024"

text \<open>
  The errors of the package: \<open>io.EOF\<close>, \<open>ColferMax\<close> (a breach of \<open>ColferSizeMax\<close>),
  \<open>ColferError\<close> and \<open>ColferTail\<close> with their byte index.
\<close>

datatype colfer_error = EOF | ColferMax | ColferError int | ColferTail int

text \<open>
  The \<open>Header\<close> struct; a Go string is its bytes. \<open>int\<close> and \<open>uint\<close> are taken to
  be 64 bits wide; sizes and indices, which are far below that, are natural numbers.
\<close>

record Header =
  SeqID :: "64 word"
  Method :: "byte list"
  Error :: "byte list"

subsection \<open>Marshalling\<close>

lemma drop_bit_7_less:
  fixes x :: "64 word"
  assumes "x \<ge> 0x80"
  shows "unat (drop_bit 7 x) < unat x"
proof -
  have "0x80 \<le> unat x"
    using assms by (simp add: word_le_nat_alt)
  moreover have "unat (drop_bit 7 x) = unat x div 2 ^ 7"
    by (simp add: drop_bit_eq_div unat_div)
  ultimately show ?thesis
    by simp
qed

text \<open>
  The loop \<open>for x >= 0x80 { buf[i] = byte(x | 0x80); x >>= 7; i++ }\<close> with the
  \<open>buf[i] = byte(x); i++\<close> that follows it: the bytes written.
\<close>

function varint :: "64 word \<Rightarrow> byte list" where
  "varint x = (if x \<ge> 0x80 then ucast (x OR 0x80) # varint (drop_bit 7 x) else [ucast x])"
  by pat_completeness auto
termination
  by (relation "measure unat") (auto simp: drop_bit_7_less)

declare varint.simps [simp del]

text \<open>The loop \<open>for x >= 0x80 { x >>= 7; l++ }\<close> of \<open>MarshalLen\<close>: what it adds to \<open>l\<close>.\<close>

function varintLen :: "64 word \<Rightarrow> nat" where
  "varintLen x = (if x \<ge> 0x80 then Suc (varintLen (drop_bit 7 x)) else 0)"
  by pat_completeness auto
termination
  by (relation "measure unat") (auto simp: drop_bit_7_less)

declare varintLen.simps [simp del]

text \<open>What \<open>MarshalTo\<close> writes for the field \<open>SeqID\<close>.\<close>

definition marshalSeqID :: "64 word \<Rightarrow> byte list" where
  "marshalSeqID x =
     (if x \<ge> 2 ^ 49 then
        [0x80,
         ucast (drop_bit 56 x), ucast (drop_bit 48 x), ucast (drop_bit 40 x),
         ucast (drop_bit 32 x), ucast (drop_bit 24 x), ucast (drop_bit 16 x),
         ucast (drop_bit 8 x), ucast x]
      else if x \<noteq> 0 then 0 # varint x
      else [])"

text \<open>
  What \<open>MarshalTo\<close> writes for a string field with the given tag (1 for \<open>Method\<close>, 2 for
  \<open>Error\<close>); \<open>uint(l)\<close> is a 64-bit word.
\<close>

definition marshalString :: "byte \<Rightarrow> byte list \<Rightarrow> byte list" where
  "marshalString tag s =
     (if length s \<noteq> 0 then tag # varint (of_nat (length s)) @ s else [])"

text \<open>
  \<open>Header.MarshalTo\<close>: the bytes are written from index 0 on, one after the other; the
  result is the buffer and the number of bytes written. \<open>None\<close> is the panic on a buffer
  that is too small.
\<close>

definition serial :: "Header \<Rightarrow> byte list" where
  "serial o' = marshalSeqID (SeqID o') @ marshalString 1 (Method o')
                 @ marshalString 2 (Error o') @ [0x7f]"

definition MarshalTo :: "Header \<Rightarrow> byte list \<Rightarrow> (byte list \<times> nat) option" where
  "MarshalTo o' buf =
     (if length buf < length (serial o') then None
      else Some (serial o' @ drop (length (serial o')) buf, length (serial o')))"

text \<open>
  \<open>Header.MarshalLen\<close>. A length is a non-negative \<open>int\<close>, for which the comparison and
  the shift of the loop are those of the unsigned word.
\<close>

definition stringLen :: "byte list \<Rightarrow> nat" where
  "stringLen s =
     (if length s \<noteq> 0 then length s + varintLen (of_nat (length s)) + 2 else 0)"

definition MarshalLen :: "Header \<Rightarrow> nat \<times> colfer_error option" where
  "MarshalLen o' =
     (let l = 1
            + (if SeqID o' \<ge> 2 ^ 49 then 9
               else if SeqID o' \<noteq> 0 then 2 + varintLen (SeqID o')
               else 0)
            + stringLen (Method o')
            + stringLen (Error o')
      in if l > ColferSizeMax then (l, Some ColferMax) else (l, None))"

text \<open>\<open>Header.MarshalBinary\<close>; \<open>None\<close> is a panic of \<open>MarshalTo\<close>.\<close>

definition MarshalBinary :: "Header \<Rightarrow> (byte list \<times> colfer_error option) option" where
  "MarshalBinary o' =
     (case MarshalLen o' of
        (l, Some err) \<Rightarrow> Some ([], Some err)
      | (l, None) \<Rightarrow>
          (case MarshalTo o' (replicate l 0) of
             None \<Rightarrow> None
           | Some (data, n) \<Rightarrow> Some (data, None)))"

subsection \<open>Unmarshalling\<close>

text \<open>
  The loop that reads \<open>SeqID\<close>, from index \<open>i\<close> with \<open>shift\<close> and \<open>x\<close>: the value
  read and the index behind it, or \<open>None\<close> when it runs into the end of the data.
\<close>

function readUint64 :: "byte list \<Rightarrow> nat \<Rightarrow> nat \<Rightarrow> 64 word \<Rightarrow> (64 word \<times> nat) option" where
  "readUint64 data i shift x =
     (if i \<ge> length data then None
      else
        let b = data ! i in
        if shift = 56 \<or> b < 0x80 then Some (x OR push_bit shift (ucast b), i + 1)
        else readUint64 data (i + 1) (shift + 7) (x OR push_bit shift (ucast b AND 0x7f)))"
  by pat_completeness auto
termination
  by (relation "measure (\<lambda>(data, i, shift, x). length data - i)") auto

declare readUint64.simps [simp del]

text \<open>The loop that reads the length of a string, a \<open>uint32\<close>.\<close>

function readUint32 :: "byte list \<Rightarrow> nat \<Rightarrow> nat \<Rightarrow> 32 word \<Rightarrow> (32 word \<times> nat) option" where
  "readUint32 data i shift x =
     (if i \<ge> length data then None
      else
        let b = data ! i in
        if b < 0x80 then Some (x OR push_bit shift (ucast b), i + 1)
        else readUint32 data (i + 1) (shift + 7) (x OR push_bit shift (ucast b AND 0x7f)))"
  by pat_completeness auto
termination
  by (relation "measure (\<lambda>(data, i, shift, x). length data - i)") auto

declare readUint32.simps [simp del]

text \<open>
  The three blocks of \<open>Unmarshal\<close>, each from the current \<open>header\<close> byte and index
  \<open>i\<close> to the next ones; \<open>Inl\<close> is the \<open>return 0, io.EOF\<close> of a block, with the
  header struct as the block leaves it.
\<close>

definition unmarshalSeqID ::
  "byte list \<Rightarrow> Header \<Rightarrow> byte \<Rightarrow> nat \<Rightarrow> Header + Header \<times> byte \<times> nat" where
  "unmarshalSeqID data o' header i =
     (if header = 0 then
        (case readUint64 data i 0 0 of
           None \<Rightarrow> Inl o'
         | Some (x, i1) \<Rightarrow>
             if i1 \<ge> length data then Inl (o'\<lparr>SeqID := x\<rparr>)
             else Inr (o'\<lparr>SeqID := x\<rparr>, data ! i1, i1 + 1))
      else if header = 0x80 then
        (if i + 8 \<ge> length data then Inl o'
         else
           Inr (o'\<lparr>SeqID :=
                   push_bit 56 (ucast (data ! i)) OR push_bit 48 (ucast (data ! (i + 1)))
                   OR push_bit 40 (ucast (data ! (i + 2))) OR push_bit 32 (ucast (data ! (i + 3)))
                   OR push_bit 24 (ucast (data ! (i + 4))) OR push_bit 16 (ucast (data ! (i + 5)))
                   OR push_bit 8 (ucast (data ! (i + 6))) OR ucast (data ! (i + 7))\<rparr>,
                data ! (i + 8), i + 9))
      else Inr (o', header, i))"

text \<open>
  The block \<open>if header == tag { ... }\<close> of a string field (tag 1 for \<open>Method\<close>, 2 for
  \<open>Error\<close>): the string read, if the block is entered, with the header byte and the index
  behind the block; \<open>None\<close> is \<open>return 0, io.EOF\<close>.
\<close>

definition unmarshalString ::
  "byte \<Rightarrow> byte list \<Rightarrow> byte \<Rightarrow> nat \<Rightarrow> (byte list option \<times> byte \<times> nat) option" where
  "unmarshalString tag data header i =
     (if header = tag then
        (case readUint32 data i 0 0 of
           None \<Rightarrow> None
         | Some (x, i1) \<Rightarrow>
             let to = i1 + unat x in
             if to \<ge> length data then None
             else Some (Some (take (to - i1) (drop i1 data)), data ! to, to + 1))
      else Some (None, header, i))"

text \<open>
  \<open>Header.Unmarshal\<close> on data of at most \<open>ColferSizeMax\<close> bytes: the header struct as
  it is left, the number of bytes read and the error.
\<close>

definition unmarshalWithin :: "Header \<Rightarrow> byte list \<Rightarrow> Header \<times> nat \<times> colfer_error option" where
  "unmarshalWithin o' data =
     (if length data = 0 then (o', 0, Some EOF)
      else
        (case unmarshalSeqID data o' (data ! 0) 1 of
           Inl o1 \<Rightarrow> (o1, 0, Some EOF)
         | Inr (o1, header1, i1) \<Rightarrow>
             (case unmarshalString 1 data header1 i1 of
                None \<Rightarrow> (o1, 0, Some EOF)
              | Some (method, header2, i2) \<Rightarrow>
                  let o2 = (case method of Some s \<Rightarrow> o1\<lparr>Method := s\<rparr> | None \<Rightarrow> o1) in
                  (case unmarshalString 2 data header2 i2 of
                     None \<Rightarrow> (o2, 0, Some EOF)
                   | Some (error, header3, i3) \<Rightarrow>
                       let o3 = (case error of Some s \<Rightarrow> o2\<lparr>Error := s\<rparr> | None \<Rightarrow> o2) in
                       if header3 \<noteq> 0x7f then (o3, 0, Some (ColferError (int i3 - 1)))
                       else (o3, i3, None)))))"

definition Unmarshal :: "Header \<Rightarrow> byte list \<Rightarrow> Header \<times> nat \<times> colfer_error option" where
  "Unmarshal o' data =
     (if length data > ColferSizeMax then
        (case unmarshalWithin o' (take ColferSizeMax data) of
           (o1, n, err) \<Rightarrow> if err = Some EOF then (o1, 0, Some ColferMax) else (o1, n, err))
      else unmarshalWithin o' data)"

text \<open>\<open>Header.UnmarshalBinary\<close>: the header struct as it is left, and the error.\<close>

definition UnmarshalBinary :: "Header \<Rightarrow> byte list \<Rightarrow> Header \<times> colfer_error option" where
  "UnmarshalBinary o' data =
     (case Unmarshal o' data of
        (o1, i, Some err) \<Rightarrow> (o1, Some err)
      | (o1, i, None) \<Rightarrow>
          if i \<noteq> length data then (o1, Some (ColferTail (int i))) else (o1, None))"

definition zeroHeader :: Header where
  "zeroHeader = \<lparr>SeqID = 0, Method = [], Error = []\<rparr>"

section \<open>Properties of the client\<close>

subsection \<open>Failover\<close>










subsection \<open>Failfast\<close>

lemma Client_Call_Failfast:
  "Client_Call E (client\<lparr>FailMode := Failfast\<rparr>) sm args reply s arrivals
     = Some \<lparr>res_err = None, res_reply = reply, res_state = s, res_trace = []\<rparr>"
  by (simp add: Client_Call_def)

text \<open>
  Claim C1. Under \<open>Failfast\<close> \<open>Client.Call\<close> is to make one attempt. The code has no
  branch for \<open>Failfast\<close>: with one healthy endpoint, whose \<open>Invoker.Call\<close> would answer
  56, \<open>Client.Call\<close> returns the nil error with an empty trace (no \<open>Select\<close>, no
  \<open>Invoker.Call\<close>) and leaves the reply at 0.
\<close>

theorem Failfast_calls_no_invoker:
  "Client_Call upEnv \<lparr>FailMode = Failfast, MaxTry = 3\<rparr> ''/arith/mul'' () 0 0 []
     = Some \<lparr>res_err = None, res_reply = 0, res_state = 0, res_trace = []\<rparr>
   \<and> inv_Call upEnv 0 ''/arith/mul'' () 0 0 = ((None, 56), 0)"
  by (simp add: Client_Call_def upEnv_def)

subsection \<open>Broadcast and Forking\<close>

lemma dispatchAll_eq:
  "dispatchAll E sm args invokers s tr
     = (fold (\<lambda>i. inv_Go E i sm args) invokers s, tr @ map EvGo invokers)"
  by (induction invokers arbitrary: s tr) simp_all

lemma dispatched_append: "dispatched (tr @ tr') = dispatched tr @ dispatched tr'"
  by (induction tr rule: dispatched.induct) auto

lemma dispatched_map_EvGo: "dispatched (map EvGo invokers) = invokers"
  by (induction invokers) auto

text \<open>
  Claim C10. When the selector's \<open>List\<close> is empty, \<open>Client.Call\<close> under \<open>Broadcast\<close>
  and under \<open>Forking\<close> returns the nil error, its trace is the call of \<open>List\<close> alone (no
  \<open>Go\<close> on any invoker) and the reply is the caller's, unchanged.
\<close>

theorem empty_List_reports_success:
  assumes "fst (sel_List E s) = []"
      and "FailMode client = Broadcast \<or> FailMode client = Forking"
  shows "Client_Call E client sm args reply s arrivals
           = Some \<lparr>res_err = None, res_reply = reply, res_state = snd (sel_List E s),
                   res_trace = [EvList]\<rparr>"
  using assms
  by (cases "sel_List E s")
     (auto simp: Client_Call_def invokerBroadCast_def invokerForking_def)

theorem empty_List_reports_success_witness:
  "fst (sel_List emptyEnv 0) = []
   \<and> Client_Call emptyEnv \<lparr>FailMode = Broadcast, MaxTry = 3\<rparr> ''/arith/mul'' () 7 0 []
       = Some \<lparr>res_err = None, res_reply = 7, res_state = 0, res_trace = [EvList]\<rparr>
   \<and> Client_Call emptyEnv \<lparr>FailMode = Forking, MaxTry = 3\<rparr> ''/arith/mul'' () 7 0 []
       = Some \<lparr>res_err = None, res_reply = 7, res_state = 0, res_trace = [EvList]\<rparr>"
proof -
  have e: "fst (sel_List emptyEnv 0) = []" by (simp add: emptyEnv_def)
  have s: "snd (sel_List emptyEnv 0) = 0" by (simp add: emptyEnv_def)
  have b: "FailMode \<lparr>FailMode = Broadcast, MaxTry = 3\<rparr> = Broadcast
             \<or> FailMode \<lparr>FailMode = Broadcast, MaxTry = 3\<rparr> = Forking" by simp
  have f: "FailMode \<lparr>FailMode = Forking, MaxTry = 3\<rparr> = Broadcast
             \<or> FailMode \<lparr>FailMode = Forking, MaxTry = 3\<rparr> = Forking" by simp
  show ?thesis
    using empty_List_reports_success [OF e b, of "''/arith/mul''" "()" 7 "[]"]
          empty_List_reports_success [OF e f, of "''/arith/mul''" "()" 7 "[]"] e s
    by simp
qed

lemma broadcastLoop_all:
  "length arrivals = l \<Longrightarrow>
   \<exists>err local1. broadcastLoop l arrivals local0 = Some (err, local1)
     \<and> (err = None \<longleftrightarrow> (\<forall>c \<in> set arrivals. \<exists>k. c = Some k \<and> call_Error k = None))"
proof (induction arrivals arbitrary: l local0)
  case Nil
  then show ?case by simp
next
  case (Cons call arrivals)
  then obtain l' where l: "l = Suc l'" and len: "length arrivals = l'" by auto
  show ?case
  proof (cases call)
    case None
    then show ?thesis using l by simp
  next
    case (Some c)
    show ?thesis
    proof (cases "call_Error c = None")
      case True
      with Cons.IH [OF len, of "call_Reply c"] Some l show ?thesis by simp
    next
      case False
      with Some l show ?thesis by auto
    qed
  qed
qed

text \<open>
  Claim C4. Under \<open>Broadcast\<close>, \<open>calls\<close> being the completed calls of the invokers of
  \<open>List\<close> (one each) and \<open>arrivals\<close> any order in which they reach the channel:
  \<open>Client.Call\<close> returns; it has called \<open>List\<close> and then \<open>Go\<close> on every invoker of the
  list, once each and in the order of the list, so that the state it leaves is the state
  after \<open>List\<close> with \<open>Go\<close> of every invoker applied to it; and its error is nil exactly
  when the error of every one of the calls is nil.
\<close>

theorem Broadcast_succeeds_iff_all_succeed:
  assumes mode: "FailMode client = Broadcast"
      and list: "sel_List E s = (invokers, s1)"
      and len: "length calls = length invokers"
      and arr: "mset arrivals = mset (map Some calls)"
  shows "\<exists>r. Client_Call E client sm args reply s arrivals = Some r
           \<and> res_trace r = EvList # map EvGo invokers
           \<and> res_state r = fold (\<lambda>i. inv_Go E i sm args) invokers s1
           \<and> dispatched (res_trace r) = invokers
           \<and> (res_err r = None \<longleftrightarrow> (\<forall>c \<in> set calls. call_Error c = None))"
proof (cases "invokers = []")
  case True
  with len have "calls = []" by simp
  with True mode list show ?thesis
    by (simp add: Client_Call_def invokerBroadCast_def)
next
  case False
  have la: "length arrivals = length invokers"
    using arr len by (metis length_map size_mset)
  have sa: "set arrivals = Some ` set calls"
    using arr by (metis set_map set_mset_mset)
  obtain err local1 where b: "broadcastLoop (length invokers) arrivals reply = Some (err, local1)"
    and iff: "err = None \<longleftrightarrow> (\<forall>c \<in> set arrivals. \<exists>k. c = Some k \<and> call_Error k = None)"
    using broadcastLoop_all [OF la, of reply] by blast
  have "err = None \<longleftrightarrow> (\<forall>c \<in> set calls. call_Error c = None)"
    unfolding iff sa by auto
  moreover have "Client_Call E client sm args reply s arrivals
      = Some \<lparr>res_err = err, res_reply = reply,
              res_state = fold (\<lambda>i. inv_Go E i sm args) invokers s1,
              res_trace = EvList # map EvGo invokers\<rparr>"
    using False mode list b
    by (simp add: Client_Call_def invokerBroadCast_def dispatchAll_eq)
  ultimately show ?thesis
    by (simp add: dispatched_map_EvGo)
qed

theorem Broadcast_succeeds_iff_all_succeed_witness:
  "FailMode \<lparr>FailMode = Broadcast, MaxTry = 3\<rparr> = Broadcast
   \<and> sel_List fanEnv [] = ([0, 1], [])
   \<and> length [\<lparr>call_Reply = 56::int, call_Error = None\<rparr>,
              \<lparr>call_Reply = 0, call_Error = Some ''connection refused''\<rparr>]
       = length [0::nat, 1]
   \<and> mset [Some \<lparr>call_Reply = 0, call_Error = Some ''connection refused''\<rparr>,
            Some \<lparr>call_Reply = 56::int, call_Error = None\<rparr>]
       = mset (map Some [\<lparr>call_Reply = 56, call_Error = None\<rparr>,
                         \<lparr>call_Reply = 0, call_Error = Some ''connection refused''\<rparr>])
   \<and> (\<exists>r. Client_Call fanEnv \<lparr>FailMode = Broadcast, MaxTry = 3\<rparr> ''/arith/mul'' () 0 []
              [Some \<lparr>call_Reply = 0, call_Error = Some ''connection refused''\<rparr>,
               Some \<lparr>call_Reply = 56, call_Error = None\<rparr>] = Some r
          \<and> res_trace r = [EvList, EvGo 0, EvGo 1]
          \<and> res_state r = [0, 1]
          \<and> dispatched (res_trace r) = [0, 1]
          \<and> res_err r \<noteq> None)"
proof -
  let ?ok = "\<lparr>call_Reply = 56::int, call_Error = None\<rparr>"
  let ?ko = "\<lparr>call_Reply = 0::int, call_Error = Some ''connection refused''\<rparr>"
  have m: "FailMode \<lparr>FailMode = Broadcast, MaxTry = 3\<rparr> = Broadcast" by simp
  have l: "sel_List fanEnv [] = ([0, 1], [])" by (simp add: fanEnv_def)
  have n: "length [?ok, ?ko] = length [0::nat, 1]" by simp
  have a: "mset [Some ?ko, Some ?ok] = mset (map Some [?ok, ?ko])" by simp
  have st: "fold (\<lambda>i. inv_Go fanEnv i ''/arith/mul'' ()) [0, 1] [] = [0, 1]"
    by (simp add: fanEnv_def)
  from Broadcast_succeeds_iff_all_succeed [OF m l n a, of "''/arith/mul''" "()" 0]
  obtain r where "Client_Call fanEnv \<lparr>FailMode = Broadcast, MaxTry = 3\<rparr> ''/arith/mul'' () 0 []
      [Some ?ko, Some ?ok] = Some r" "res_trace r = [EvList, EvGo 0, EvGo 1]"
      "res_state r = [0, 1]" "dispatched (res_trace r) = [0, 1]" "res_err r \<noteq> None"
    unfolding st by auto
  with m l n a show ?thesis by blast
qed

lemma forkingLoop_first_success:
  "\<forall>p \<in> set pre. call_Error p \<noteq> None \<Longrightarrow> call_Error c = None \<Longrightarrow> length pre < l \<Longrightarrow>
   forkingLoop l (map Some pre @ Some c # post) local0 = Some (None, call_Reply c)"
proof (induction pre arbitrary: l)
  case Nil
  then obtain l' where "l = Suc l'" by (cases l) auto
  with Nil show ?case by simp
next
  case (Cons p pre)
  then obtain l' where l: "l = Suc l'" and len: "length pre < l'" by (cases l) auto
  have p: "call_Error p \<noteq> None" and rest: "\<forall>p \<in> set pre. call_Error p \<noteq> None"
    using Cons.prems(1) by simp_all
  obtain e where e: "call_Error p = Some e"
    using p by auto
  have "forkingLoop l (map Some (p # pre) @ Some c # post) local0
          = forkingLoop l' (map Some pre @ Some c # post) local0"
    unfolding l by (simp add: e)
  also have "\<dots> = Some (None, call_Reply c)"
    by (rule Cons.IH [OF rest Cons.prems(2) len])
  finally show ?case .
qed

lemma forkingLoop_all_fail:
  "\<forall>p \<in> set calls. call_Error p \<noteq> None \<Longrightarrow> length calls = l \<Longrightarrow>
   forkingLoop l (map Some calls) local0
     = Some (Some (NewRPCError [''all invokers return Error'']), local0)"
proof (induction calls arbitrary: l)
  case Nil
  then show ?case by simp
next
  case (Cons p calls)
  then obtain l' where l: "l = Suc l'" and len: "length calls = l'" by auto
  have p: "call_Error p \<noteq> None" and rest: "\<forall>p \<in> set calls. call_Error p \<noteq> None"
    using Cons.prems(1) by simp_all
  obtain e where e: "call_Error p = Some e"
    using p by auto
  have "forkingLoop l (map Some (p # calls)) local0 = forkingLoop l' (map Some calls) local0"
    unfolding l by (simp add: e)
  also have "\<dots> = Some (Some (NewRPCError [''all invokers return Error'']), local0)"
    by (rule Cons.IH [OF rest len])
  finally show ?case .
qed

lemma map_Some_the:
  "\<forall>a \<in> set arrivals. a \<noteq> None \<Longrightarrow> map Some (map the arrivals) = arrivals"
  by (induction arrivals) auto

lemma arrivals_of_calls:
  assumes "mset arrivals = mset (map Some calls)"
  shows "\<exists>calls'. arrivals = map Some calls' \<and> set calls' = set calls"
proof -
  have sa: "set arrivals = Some ` set calls"
    using assms by (metis set_map set_mset_mset)
  then have "\<forall>a \<in> set arrivals. a \<noteq> None"
    by auto
  then have eq: "arrivals = map Some (map the arrivals)"
    by (rule map_Some_the [symmetric])
  have "set (map the arrivals) = the ` Some ` set calls"
    using sa by simp
  also have "\<dots> = set calls"
    by (simp add: image_image)
  finally show ?thesis
    using eq by blast
qed

text \<open>
  Claim C5, as the code has it. With an empty \<open>List\<close> \<open>invokerForking\<close> returns the nil
  error although no call succeeded: below, \<open>List\<close> is empty (so that each of its
  invokers failed, there being none) and the error returned is nil.
\<close>

theorem Forking_empty_List_counterexample:
  "fst (sel_List emptyEnv 0) = []
   \<and> Client_Call emptyEnv \<lparr>FailMode = Forking, MaxTry = 3\<rparr> ''/arith/mul'' () 7 0 []
       = Some \<lparr>res_err = None, res_reply = 7, res_state = 0, res_trace = [EvList]\<rparr>"
  by (simp add: Client_Call_def invokerForking_def emptyEnv_def)

text \<open>
  Claim C5, amended to a non-empty \<open>List\<close> and to what \<open>Client.Call\<close> returns. Under
  \<open>Forking\<close>, \<open>calls\<close> being the completed calls of the invokers of \<open>List\<close> (one each)
  and \<open>arrivals\<close> any order in which they reach the channel: \<open>Client.Call\<close> returns; it
  has called \<open>List\<close> and then \<open>Go\<close> on every invoker of the list, once each and in the
  order of the list, so that the state it leaves is the state after \<open>List\<close> with \<open>Go\<close> of
  every invoker applied to it; and its error is non-nil exactly when every one of the calls
  failed. When a call \<open>c\<close> with a nil error arrives after failed calls only, the error is
  nil and the result is produced from the arrivals up to \<open>c\<close> alone.
\<close>

theorem Forking_fails_iff_all_fail:
  assumes mode: "FailMode client = Forking"
      and list: "sel_List E s = (invokers, s1)"
      and ne: "invokers \<noteq> []"
      and len: "length calls = length invokers"
      and arr: "mset arrivals = mset (map Some calls)"
  shows "\<exists>r. Client_Call E client sm args reply s arrivals = Some r
           \<and> res_trace r = EvList # map EvGo invokers
           \<and> res_state r = fold (\<lambda>i. inv_Go E i sm args) invokers s1
           \<and> dispatched (res_trace r) = invokers
           \<and> (res_err r \<noteq> None \<longleftrightarrow> (\<forall>c \<in> set calls. call_Error c \<noteq> None))
           \<and> (\<forall>pre c post.
                 arrivals = map Some pre @ Some c # post
                 \<and> (\<forall>p \<in> set pre. call_Error p \<noteq> None) \<and> call_Error c = None
                 \<longrightarrow> res_err r = None
                     \<and> Client_Call E client sm args reply s (map Some pre @ [Some c]) = Some r)"
proof -
  let ?s2 = "fold (\<lambda>i. inv_Go E i sm args) invokers s1"
  let ?tr = "EvList # map EvGo invokers"
  have la: "length arrivals = length invokers"
    using arr len by (metis length_map size_mset)
  obtain calls' where a: "arrivals = map Some calls'" and sc: "set calls' = set calls"
    using arrivals_of_calls [OF arr] by blast
  have call: "Client_Call E client sm args reply s xs =
      (case forkingLoop (length invokers) xs reply of
         None \<Rightarrow> None
       | Some (err, local1) \<Rightarrow>
           Some \<lparr>res_err = err, res_reply = reply, res_state = ?s2, res_trace = ?tr\<rparr>)" for xs
    using mode list ne
    by (simp add: Client_Call_def invokerForking_def dispatchAll_eq split: option.splits)
  have first: "forkingLoop (length invokers) (map Some pre @ Some c # post) reply
                 = Some (None, call_Reply c)"
    if "arrivals = map Some pre @ Some c # post'" "\<forall>p \<in> set pre. call_Error p \<noteq> None"
       "call_Error c = None" for pre c post post'
  proof -
    have "length pre < length invokers"
      using that(1) la by simp
    with that show ?thesis by (simp add: forkingLoop_first_success)
  qed
  show ?thesis
  proof (cases "\<exists>c \<in> set calls'. call_Error c = None")
    case True
    then obtain pre c post where sp: "calls' = pre @ c # post" "call_Error c = None"
      "\<forall>p \<in> set pre. call_Error p \<noteq> None"
      by (auto dest!: split_list_first_prop)
    have arr': "arrivals = map Some pre @ Some c # map Some post"
      using a sp(1) by simp
    let ?r = "\<lparr>res_err = None, res_reply = reply, res_state = ?s2, res_trace = ?tr\<rparr>"
    have r: "Client_Call E client sm args reply s arrivals = Some ?r"
      using first [OF arr' sp(3) sp(2), of "map Some post"] arr' by (simp add: call)
    have some: "\<not> (\<forall>c \<in> set calls. call_Error c \<noteq> None)"
      using True sc by auto
    have "res_err ?r = None
            \<and> Client_Call E client sm args reply s (map Some pre' @ [Some c']) = Some ?r"
      if h: "arrivals = map Some pre' @ Some c' # post'"
         "\<forall>p \<in> set pre'. call_Error p \<noteq> None" "call_Error c' = None" for pre' c' post'
      using first [OF h, of "[]"] by (simp add: call)
    with r some show ?thesis
      by (simp add: dispatched_map_EvGo)
  next
    case False
    then have all: "\<forall>p \<in> set calls'. call_Error p \<noteq> None" by auto
    have lc: "length calls' = length invokers"
      using a la by simp
    let ?r = "\<lparr>res_err = Some (NewRPCError [''all invokers return Error'']), res_reply = reply,
               res_state = ?s2, res_trace = ?tr\<rparr>"
    have r: "Client_Call E client sm args reply s arrivals = Some ?r"
      using forkingLoop_all_fail [OF all lc, of reply] a by (simp add: call)
    have allc: "\<forall>c \<in> set calls. call_Error c \<noteq> None"
      using all sc by auto
    have none: "\<not> (arrivals = map Some pre @ Some c # post
                     \<and> (\<forall>p \<in> set pre. call_Error p \<noteq> None) \<and> call_Error c = None)"
      for pre c post
    proof
      assume h: "arrivals = map Some pre @ Some c # post
                     \<and> (\<forall>p \<in> set pre. call_Error p \<noteq> None) \<and> call_Error c = None"
      then have "Some c \<in> set arrivals" by simp
      then have "c \<in> set calls'" using a by auto
      with all h show False by auto
    qed
    show ?thesis
      using r allc none by (auto simp: dispatched_map_EvGo)
  qed
qed

theorem Forking_fails_iff_all_fail_witness:
  "FailMode \<lparr>FailMode = Forking, MaxTry = 3\<rparr> = Forking
   \<and> sel_List fanEnv [] = ([0, 1], [])
   \<and> [0::nat, 1] \<noteq> []
   \<and> length [\<lparr>call_Reply = 0::int, call_Error = Some ''connection refused''\<rparr>,
              \<lparr>call_Reply = 56, call_Error = None\<rparr>]
       = length [0::nat, 1]
   \<and> mset [Some \<lparr>call_Reply = 0, call_Error = Some ''connection refused''\<rparr>,
            Some \<lparr>call_Reply = 56::int, call_Error = None\<rparr>]
       = mset (map Some [\<lparr>call_Reply = 0, call_Error = Some ''connection refused''\<rparr>,
                         \<lparr>call_Reply = 56, call_Error = None\<rparr>])
   \<and> (\<exists>r. Client_Call fanEnv \<lparr>FailMode = Forking, MaxTry = 3\<rparr> ''/arith/mul'' () 0 []
              [Some \<lparr>call_Reply = 0, call_Error = Some ''connection refused''\<rparr>,
               Some \<lparr>call_Reply = 56, call_Error = None\<rparr>] = Some r
          \<and> res_trace r = [EvList, EvGo 0, EvGo 1]
          \<and> res_state r = [0, 1]
          \<and> dispatched (res_trace r) = [0, 1]
          \<and> res_err r = None)"
proof -
  let ?ok = "\<lparr>call_Reply = 56::int, call_Error = None\<rparr>"
  let ?ko = "\<lparr>call_Reply = 0::int, call_Error = Some ''connection refused''\<rparr>"
  have m: "FailMode \<lparr>FailMode = Forking, MaxTry = 3\<rparr> = Forking" by simp
  have l: "sel_List fanEnv [] = ([0, 1], [])" by (simp add: fanEnv_def)
  have ne: "[0::nat, 1] \<noteq> []" by simp
  have n: "length [?ko, ?ok] = length [0::nat, 1]" by simp
  have a: "mset [Some ?ko, Some ?ok] = mset (map Some [?ko, ?ok])" by simp
  have st: "fold (\<lambda>i. inv_Go fanEnv i ''/arith/mul'' ()) [0, 1] [] = [0, 1]"
    by (simp add: fanEnv_def)
  from Forking_fails_iff_all_fail [OF m l ne n a, of "''/arith/mul''" "()" 0]
  obtain r where r: "Client_Call fanEnv \<lparr>FailMode = Forking, MaxTry = 3\<rparr> ''/arith/mul'' () 0 []
      [Some ?ko, Some ?ok] = Some r" "res_trace r = [EvList, EvGo 0, EvGo 1]"
      "res_state r = [0, 1]" "dispatched (res_trace r) = [0, 1]"
    and first: "\<forall>pre c post.
       [Some ?ko, Some ?ok] = map Some pre @ Some c # post
       \<and> (\<forall>p \<in> set pre. call_Error p \<noteq> None) \<and> call_Error c = None
       \<longrightarrow> res_err r = None
           \<and> Client_Call fanEnv \<lparr>FailMode = Forking, MaxTry = 3\<rparr> ''/arith/mul'' () 0 []
                (map Some pre @ [Some c]) = Some r"
    unfolding st by auto
  from first [rule_format, of "[?ko]" ?ok "[]"]
  have "res_err r = None" by simp
  with r m l ne n a show ?thesis by blast
qed

section \<open>Properties of the server\<close>

subsection \<open>Registration\<close>

text \<open>
  Claim C2. Two registrations that derive the same path \<open>/arith/double\<close>, for the
  receivers \<open>First\<close> and \<open>Second\<close>: the first succeeds and the path maps to the
  service of \<open>First\<close>; the second returns the error holding \<open>ErrServiceAlreadyExists\<close>
  for the path, and the path now maps to the service of \<open>Second\<close>: \<open>register\<close> notes
  the error and goes on to \<open>server.serviceMap[spath] = service\<close>.
\<close>

theorem register_twice_replaces_first:
  "(case register [''arith''] ''First'' noPlugins [] emptyServer of
      (err1, server1) \<Rightarrow>
        (case register [''arith''] ''Second'' noPlugins [] server1 of
           (err2, server2) \<Rightarrow>
             (err1, map_option svc_rcvr (srv_serviceMap server1 ''/arith/double''),
              err2, map_option svc_rcvr (srv_serviceMap server2 ''/arith/double''),
              srv_routers server2)))
   = (None, Some ''First'',
      Some (MultiError [ErrServiceAlreadyExists ''/arith/double'']), Some ''Second'',
      [''/arith/double'', ''/arith/double''])"
  by (simp add: register_def registerService_def emptyServer_def joinBuilder_def
        doubleService_def noPlugins_def Let_def)

subsection \<open>The context pool\<close>

lemma getContext_resets:
  "getContext conn server = (ctx, server') \<Longrightarrow>
   ctx_req ctx = \<lparr>req_ServiceMethod = [], req_Seq = 0\<rparr>
   \<and> ctx_resp ctx = \<lparr>resp_ServiceMethod = [], resp_Seq = 0, resp_Error = []\<rparr>
   \<and> ctx_data ctx = Some [] \<and> ctx_service ctx = None \<and> ctx_query ctx = []
   \<and> ctx_argv ctx = None \<and> ctx_replyv ctx = None"
  by (auto simp: getContext_def split: prod.splits)

lemma getContext_keeps:
  "getContext conn (server\<lparr>srv_contextPool := used # pool\<rparr>) = (ctx, server') \<Longrightarrow>
   ctx_path ctx = ctx_path used \<and> ctx_rpcErrorType ctx = ctx_rpcErrorType used"
  by (auto simp: getContext_def poolGet_def)

text \<open>
  Claim C3. A context that served a request for \<open>/no/such\<close>, which ended with the error
  kind \<open>ServerNotFoundService\<close>, is put back and checked out again: request, response,
  data, service, query, argument and reply are reset, but the path is still \<open>/no/such\<close>
  and the error kind still \<open>ServerNotFoundService\<close>: \<open>getContext\<close> assigns neither.
\<close>

theorem getContext_keeps_path_and_error_kind:
  "(case getContext 1
           (putContext
              (newContext\<lparr>ctx_codecConn := Some 0,
                          ctx_req := \<lparr>req_ServiceMethod = ''/no/such'', req_Seq = 7\<rparr>,
                          ctx_path := ''/no/such'', ctx_data := Some [],
                          ctx_rpcErrorType := ErrorTypeServerNotFoundService\<rparr>)
              arithServer) of
      (ctx, server) \<Rightarrow>
        (ctx_req ctx, ctx_resp ctx, ctx_data ctx, map_option svc_path (ctx_service ctx),
         ctx_query ctx, ctx_argv ctx, ctx_replyv ctx, ctx_path ctx, ctx_rpcErrorType ctx))
   = (\<lparr>req_ServiceMethod = [], req_Seq = 0\<rparr>,
      \<lparr>resp_ServiceMethod = [], resp_Seq = 0, resp_Error = []\<rparr>,
      Some [], None, [], None, None, ''/no/such'', 5)"
  by (simp add: getContext_def putContext_def poolGet_def newContext_def arithServer_def
        emptyServer_def ErrorTypeServerNotFoundService_def)

subsection \<open>The connection loop\<close>

lemma readRequestHeader_parsed:
  assumes "readRequestHeader C ctx w = ((True, ns, err), ctx1, w1)"
  shows "\<not> ns
    \<and> (\<exists>sm c1. codec_ReadRequestHeader C (w_conn w) = (HdrOk (req_Seq (ctx_req ctx1)) sm, c1))
    \<and> w_trace w1 = w_trace w @ [ConnReadHeader]
    \<and> w_server w1 = w_server w
    \<and> ctx_replyv ctx1 = ctx_replyv ctx
    \<and> (ctx_service ctx1 = ctx_service ctx
        \<or> ctx_service ctx1 = srv_serviceMap (w_server w) (ctx_path ctx1))"
  using assms
  by (auto simp: readRequestHeader_def Let_def setErrorType_def
           split: option.splits prod.splits hdr_read.splits if_splits)

lemma readRequestBody_effect:
  assumes "readRequestBody C b ctx w = (r, ctx1, w1)"
  shows "ctx_req ctx1 = ctx_req ctx \<and> ctx_replyv ctx1 = ctx_replyv ctx
    \<and> ctx_service ctx1 = ctx_service ctx
    \<and> w_server w1 = w_server w
    \<and> (w_trace w1 = w_trace w \<or> w_trace w1 = w_trace w @ [ConnReadBody b])
    \<and> (doPreReadRequestBody (srv_PluginContainer (w_server w)) (ctx_req ctx) = None
        \<and> (\<forall>service. ctx_service ctx = Some service \<longrightarrow>
              doPreReadRequestBody (svc_pluginContainer service) (ctx_req ctx) = None)
        \<longrightarrow> w_trace w1 = w_trace w @ [ConnReadBody b])"
  using assms
  by (auto simp: readRequestBody_def Let_def setErrorType_def
           split: option.splits prod.splits if_splits)


lemma decimal_not_Nil: "decimal n \<noteq> []"
  by (subst decimal.simps) simp

lemma Itoa_append_not_Nil: "m \<noteq> [] \<Longrightarrow> Itoa t @ m \<noteq> []"
  by simp

lemma writeResponse_effect:
  assumes "writeResponse C body ctx w = (werr, ctx1, w1)"
      and "resp_Error (ctx_resp ctx) \<noteq> []"
      and "doPreWriteResponse (srv_PluginContainer (w_server w)) (ctx_req ctx) \<noteq> Some []"
      and "\<And>service. ctx_service ctx = Some service \<Longrightarrow>
              doPreWriteResponse (svc_pluginContainer service) (ctx_req ctx) \<noteq> Some []"
  shows "\<exists>resp body1. w_trace w1 = w_trace w @ [ConnWriteResponse resp body1]
           \<and> resp_Seq resp = resp_Seq (ctx_resp ctx) \<and> resp_Error resp \<noteq> []
           \<and> (body1 = body \<or> body1 = NilBody)"
  using assms
  by (auto simp: writeResponse_def Let_def setErrorType_def
           split: option.splits prod.splits if_splits)

lemma sendResponse_error:
  assumes "e \<noteq> []"
      and "doPreWriteResponse (srv_PluginContainer (w_server w)) (ctx_req ctx) \<noteq> Some []"
      and "\<And>service. ctx_service ctx = Some service \<Longrightarrow>
              doPreWriteResponse (svc_pluginContainer service) (ctx_req ctx) \<noteq> Some []"
  shows "\<exists>w2 resp body. sendResponse C ctx e w = Some w2
           \<and> w_trace w2 = w_trace w @ [ConnWriteResponse resp body]
           \<and> resp_Seq resp = req_Seq (ctx_req ctx) \<and> resp_Error resp \<noteq> []
           \<and> (body = InvalidRequest \<or> body = NilBody)"
proof -
  let ?ctx3 = "ctx\<lparr>ctx_resp := (ctx_resp ctx)
                  \<lparr>resp_ServiceMethod := req_ServiceMethod (ctx_req ctx),
                   resp_Error := e, resp_Seq := req_Seq (ctx_req ctx)\<rparr>\<rparr>"
  obtain werr ctx4 w1 where wr: "writeResponse C InvalidRequest ?ctx3 w = (werr, ctx4, w1)"
    by (cases "writeResponse C InvalidRequest ?ctx3 w") auto
  have send: "sendResponse C ctx e w = Some (w1\<lparr>w_server := putContext ctx4 (w_server w1)\<rparr>)"
    using assms(1) wr by (simp add: sendResponse_def Let_def)
  from writeResponse_effect [OF wr] assms
  obtain resp body1 where "w_trace w1 = w_trace w @ [ConnWriteResponse resp body1]"
    "resp_Seq resp = req_Seq (ctx_req ctx)" "resp_Error resp \<noteq> []"
    "body1 = InvalidRequest \<or> body1 = NilBody"
    by auto
  with send show ?thesis by auto
qed


lemma readRequest_fails:
  assumes rd: "readRequest C ctx w = Some ((True, ns, Some e), ctx1, w1)"
      and fresh: "ctx_service ctx = None"
  shows "\<not> ns
    \<and> (\<exists>sm c1 reads.
          codec_ReadRequestHeader C (w_conn w) = (HdrOk (req_Seq (ctx_req ctx1)) sm, c1)
        \<and> w_trace w1 = w_trace w @ [ConnReadHeader] @ reads
        \<and> (reads = [] \<or> (\<exists>b. reads = [ConnReadBody b]))
        \<and> ((\<forall>req. doPreReadRequestBody (srv_PluginContainer (w_server w)) req = None)
            \<and> (\<forall>path service req. srv_serviceMap (w_server w) path = Some service \<longrightarrow>
                  doPreReadRequestBody (svc_pluginContainer service) req = None)
            \<longrightarrow> reads \<noteq> []))
    \<and> w_server w1 = w_server w
    \<and> (ctx_service ctx1 = None
        \<or> ctx_service ctx1 = srv_serviceMap (w_server w) (ctx_path ctx1))"
proof -
  obtain kr ns' err ctxh wh where h: "readRequestHeader C ctx w = ((kr, ns', err), ctxh, wh)"
    by (metis prod_cases3)
  have kr: "kr"
    using rd h by (auto simp: readRequest_def Let_def split: option.splits prod.splits if_splits)
  then have h': "readRequestHeader C ctx w = ((True, ns', err), ctxh, wh)"
    using h by simp
  note H = readRequestHeader_parsed [OF h']
  from H fresh have svc: "ctx_service ctxh = None
      \<or> ctx_service ctxh = srv_serviceMap (w_server w) (ctx_path ctxh)"
    by auto
  have ns: "ns = ns'"
    using rd h by (auto simp: readRequest_def Let_def split: option.splits prod.splits if_splits)
  show ?thesis
  proof (cases err)
    case (Some e')
    obtain d ctx2 w2 where b: "readRequestBody C NilBody ctxh wh = (d, ctx2, w2)"
      by (metis prod_cases3)
    from h Some kr b rd have eq: "ctx1 = ctx2" "w1 = w2"
      by (simp_all add: readRequest_def)
    note B = readRequestBody_effect [OF b]
    have path: "ctx_path ctx2 = ctx_path ctxh"
      using b by (auto simp: readRequestBody_def Let_def setErrorType_def
                       split: option.splits prod.splits if_splits)
    show ?thesis
      using H B svc ns path unfolding eq by (auto simp: fresh)
  next
    case None
    then obtain service where s: "ctx_service ctxh = Some service"
      using rd h by (auto simp: readRequest_def split: option.splits)
    let ?ctx2 = "ctxh\<lparr>ctx_argv := Some (svc_newArg service)\<rparr>"
    obtain berr decoded ctx3 w2 where
      b: "readRequestBody C (Value (svc_newArg service)) ?ctx2 wh = ((berr, decoded), ctx3, w2)"
      by (cases "readRequestBody C (Value (svc_newArg service)) ?ctx2 wh") auto
    note B = readRequestBody_effect [OF b]
    have path: "ctx_path ctx3 = ctx_path ctxh"
      using b by (auto simp: readRequestBody_def Let_def setErrorType_def
                       split: option.splits prod.splits if_splits)
    from rd h None s b have berr: "berr = Some e" and w: "w1 = w2"
      and c: "ctx1 = (case decoded of Some v \<Rightarrow> ctx3\<lparr>ctx_argv := Some v\<rparr> | None \<Rightarrow> ctx3)"
      by (auto simp: readRequest_def Let_def split: if_splits)
    have c': "ctx_req ctx1 = ctx_req ctx3" "ctx_service ctx1 = ctx_service ctx3"
      "ctx_path ctx1 = ctx_path ctx3"
      unfolding c by (simp_all split: option.splits)
    have pre: "w_trace w2 = w_trace wh @ [ConnReadBody (Value (svc_newArg service))]"
      if "\<forall>req. doPreReadRequestBody (srv_PluginContainer (w_server w)) req = None"
         "\<forall>path service req. srv_serviceMap (w_server w) path = Some service \<longrightarrow>
            doPreReadRequestBody (svc_pluginContainer service) req = None"
    proof -
      have "ctx_service ctxh = srv_serviceMap (w_server w) (ctx_path ctxh)"
        using svc s by auto
      with s that(2) have "doPreReadRequestBody (svc_pluginContainer service) (ctx_req ?ctx2) = None"
        by metis
      with B that(1) H s show ?thesis by simp
    qed
    show ?thesis
      using H B svc ns path c' pre unfolding w by (auto simp: s)
  qed
qed


lemma getContext_server:
  "getContext conn server = (ctx, server1) \<Longrightarrow>
   srv_PluginContainer server1 = srv_PluginContainer server
   \<and> srv_serviceMap server1 = srv_serviceMap server
   \<and> srv_ServiceBuilder server1 = srv_ServiceBuilder server"
  by (auto simp: getContext_def split: prod.splits)

lemma ServeConn_iteration_EOF:
  assumes pre: "doPreReadRequestHeader (srv_PluginContainer (w_server w))
                  \<lparr>req_ServiceMethod = [], req_Seq = 0\<rparr> = None"
      and eof: "fst (codec_ReadRequestHeader C (w_conn w)) = HdrEOF
                \<or> fst (codec_ReadRequestHeader C (w_conn w)) = HdrUnexpectedEOF"
  shows "\<exists>w1. ServeConn_iteration C conn w = Break w1
           \<and> w_trace w1 = w_trace w @ [ConnReadHeader]"
proof -
  obtain ctx server1 where gc: "getContext conn (w_server w) = (ctx, server1)"
    by (cases "getContext conn (w_server w)")
  obtain h c1 where c: "codec_ReadRequestHeader C (w_conn w) = (h, c1)"
    and h: "h = HdrEOF \<or> h = HdrUnexpectedEOF"
    using eof by (cases "codec_ReadRequestHeader C (w_conn w)") auto
  let ?w = "w\<lparr>w_server := server1\<rparr>"
  have "readRequestHeader C ctx ?w =
          ((False, True, Some (if h = HdrEOF then io_EOF else io_ErrUnexpectedEOF)),
           setErrorType ErrorTypeServerReadRequestHeader ctx,
           ?w\<lparr>w_conn := c1, w_trace := w_trace w @ [ConnReadHeader]\<rparr>)"
    using pre c h getContext_resets [OF gc] getContext_server [OF gc]
    by (auto simp: readRequestHeader_def Let_def)
  then show ?thesis
    using gc by (simp add: ServeConn_iteration_def readRequest_def)
qed

text \<open>
  What an iteration of the loop of \<open>ServeConn\<close> does establish. When its \<open>readRequest\<close>
  returns \<open>keepReading\<close> true with an error of non-empty message (the header was parsed
  and a later step failed): the codec had delivered a header with some \<open>seq\<close>; after
  the header read the iteration makes at most one body read, and it makes one when no
  \<open>PreReadRequestBody\<close> hook fails; it then writes one response, with sequence number
  \<open>seq\<close>, a non-empty error string and a placeholder or nil body; and the loop goes on
  from there. When the header read returns \<open>io.EOF\<close> or \<open>io.ErrUnexpectedEOF\<close>, the
  iteration leaves the loop after the header read alone and \<open>ServeConn\<close> ends with
  \<open>Close\<close>, no response written. (A \<open>PreWriteResponse\<close> hook is taken not to fail with
  an empty message.)
\<close>

theorem ServeConn_recovers_after_parsed_header:
  assumes prewrite0:
        "\<forall>req. doPreWriteResponse (srv_PluginContainer (w_server w)) req \<noteq> Some []"
      and prewrite_svc0:
        "\<forall>path service req. srv_serviceMap (w_server w) path = Some service \<longrightarrow>
              doPreWriteResponse (svc_pluginContainer service) req \<noteq> Some []"
  shows "(requestOutcome C conn w = Some (True, notSend, Some e) \<and> e \<noteq> [] \<longrightarrow>
           (\<exists>seq sm c1 reads resp body w2.
               codec_ReadRequestHeader C (w_conn w) = (HdrOk seq sm, c1)
             \<and> ServeConn_iteration C conn w = Continue w2
             \<and> w_trace w2 = w_trace w @ [ConnReadHeader] @ reads @ [ConnWriteResponse resp body]
             \<and> (reads = [] \<or> (\<exists>b. reads = [ConnReadBody b]))
             \<and> ((\<forall>req. doPreReadRequestBody (srv_PluginContainer (w_server w)) req = None)
                 \<and> (\<forall>path service req. srv_serviceMap (w_server w) path = Some service \<longrightarrow>
                       doPreReadRequestBody (svc_pluginContainer service) req = None)
                 \<longrightarrow> reads \<noteq> [])
             \<and> resp_Seq resp = seq \<and> resp_Error resp \<noteq> []
             \<and> (body = InvalidRequest \<or> body = NilBody)
             \<and> ServeConn C conn w = ServeConn C conn w2))
       \<and> (doPreReadRequestHeader (srv_PluginContainer (w_server w))
             \<lparr>req_ServiceMethod = [], req_Seq = 0\<rparr> = None
           \<and> (fst (codec_ReadRequestHeader C (w_conn w)) = HdrEOF
                \<or> fst (codec_ReadRequestHeader C (w_conn w)) = HdrUnexpectedEOF) \<longrightarrow>
           (\<exists>w1 w2. ServeConn_iteration C conn w = Break w1
              \<and> w_trace w1 = w_trace w @ [ConnReadHeader]
              \<and> ServeConn C conn w = Some (Some w2)
              \<and> w_trace w2 = w_trace w @ [ConnReadHeader, ConnClose]))"
proof (intro conjI impI)
  note prewrite = prewrite0 [rule_format]
  note prewrite_svc = prewrite_svc0 [rule_format]
  assume a: "requestOutcome C conn w = Some (True, notSend, Some e) \<and> e \<noteq> []"
  obtain ctx server1 where gc: "getContext conn (w_server w) = (ctx, server1)"
    by (cases "getContext conn (w_server w)")
  note S = getContext_server [OF gc]
  let ?w = "w\<lparr>w_server := server1\<rparr>"
  from a gc obtain ctx1 w1 where
    rd: "readRequest C ctx ?w = Some ((True, notSend, Some e), ctx1, w1)"
    by (auto simp: requestOutcome_def)
  have fresh: "ctx_service ctx = None"
    using getContext_resets [OF gc] by simp
  have sel: "w_conn ?w = w_conn w" "w_trace ?w = w_trace w" "w_server ?w = server1"
    by simp_all
  note F = readRequest_fails [OF rd fresh,
      unfolded sel S [THEN conjunct1] S [THEN conjunct2, THEN conjunct1]]
  from F obtain sm c1 reads where
    ns: "\<not> notSend"
    and hdr: "codec_ReadRequestHeader C (w_conn w) = (HdrOk (req_Seq (ctx_req ctx1)) sm, c1)"
    and tr: "w_trace w1 = w_trace w @ [ConnReadHeader] @ reads"
    and shape: "reads = [] \<or> (\<exists>b. reads = [ConnReadBody b])"
    and drained: "(\<forall>req. doPreReadRequestBody (srv_PluginContainer (w_server w)) req = None)
            \<and> (\<forall>path service req. srv_serviceMap (w_server w) path = Some service \<longrightarrow>
                  doPreReadRequestBody (svc_pluginContainer service) req = None)
            \<longrightarrow> reads \<noteq> []"
    and srv: "w_server w1 = server1"
    and svc: "ctx_service ctx1 = None
        \<or> ctx_service ctx1 = srv_serviceMap (w_server w) (ctx_path ctx1)"
    by blast
  have p1: "doPreWriteResponse (srv_PluginContainer (w_server w1)) (ctx_req ctx1) \<noteq> Some []"
    using prewrite srv S by simp
  have p2: "doPreWriteResponse (svc_pluginContainer service) (ctx_req ctx1) \<noteq> Some []"
    if "ctx_service ctx1 = Some service" for service
    using that svc prewrite_svc [of "ctx_path ctx1" service] by auto
  from a have e: "e \<noteq> []" by simp
  from sendResponse_error [OF e p1 p2, of C] obtain w2 resp body where
    send: "sendResponse C ctx1 e w1 = Some w2"
    and tr2: "w_trace w2 = w_trace w1 @ [ConnWriteResponse resp body]"
    and seq: "resp_Seq resp = req_Seq (ctx_req ctx1)" and err: "resp_Error resp \<noteq> []"
    and body: "body = InvalidRequest \<or> body = NilBody"
    by blast
  have it: "ServeConn_iteration C conn w = Continue w2"
    using gc rd ns send by (simp add: ServeConn_iteration_def)
  have loop: "ServeConn C conn w = ServeConn C conn w2"
    by (subst ServeConn.simps) (simp add: it)
  show "\<exists>seq sm c1 reads resp body w2.
               codec_ReadRequestHeader C (w_conn w) = (HdrOk seq sm, c1)
             \<and> ServeConn_iteration C conn w = Continue w2
             \<and> w_trace w2 = w_trace w @ [ConnReadHeader] @ reads @ [ConnWriteResponse resp body]
             \<and> (reads = [] \<or> (\<exists>b. reads = [ConnReadBody b]))
             \<and> ((\<forall>req. doPreReadRequestBody (srv_PluginContainer (w_server w)) req = None)
                 \<and> (\<forall>path service req. srv_serviceMap (w_server w) path = Some service \<longrightarrow>
                       doPreReadRequestBody (svc_pluginContainer service) req = None)
                 \<longrightarrow> reads \<noteq> [])
             \<and> resp_Seq resp = seq \<and> resp_Error resp \<noteq> []
             \<and> (body = InvalidRequest \<or> body = NilBody)
             \<and> ServeConn C conn w = ServeConn C conn w2"
    using hdr it tr tr2 shape drained seq err body loop
    by (intro exI [of _ "req_Seq (ctx_req ctx1)"] exI [of _ sm] exI [of _ c1]
          exI [of _ reads] exI [of _ resp] exI [of _ body] exI [of _ w2]) simp
next
  assume a: "doPreReadRequestHeader (srv_PluginContainer (w_server w))
             \<lparr>req_ServiceMethod = [], req_Seq = 0\<rparr> = None
           \<and> (fst (codec_ReadRequestHeader C (w_conn w)) = HdrEOF
                \<or> fst (codec_ReadRequestHeader C (w_conn w)) = HdrUnexpectedEOF)"
  then obtain w1 where it: "ServeConn_iteration C conn w = Break w1"
    and tr: "w_trace w1 = w_trace w @ [ConnReadHeader]"
    using ServeConn_iteration_EOF [of w C conn] by blast
  let ?w2 = "w1\<lparr>w_conn := codec_Close C (w_conn w1), w_trace := w_trace w1 @ [ConnClose]\<rparr>"
  have "ServeConn C conn w = Some (Some ?w2)"
    by (subst ServeConn.simps) (simp add: it)
  with it tr show "\<exists>w1 w2. ServeConn_iteration C conn w = Break w1
              \<and> w_trace w1 = w_trace w @ [ConnReadHeader]
              \<and> ServeConn C conn w = Some (Some w2)
              \<and> w_trace w2 = w_trace w @ [ConnReadHeader, ConnClose]"
    by (intro exI [of _ w1] exI [of _ ?w2]) simp
qed


subsection \<open>Evaluating the example server\<close>

lemma decimal_digit: "n < 10 \<Longrightarrow> decimal n = [digit n]"
  by (subst decimal.simps) simp

lemmas server_defs =
  ServeRequest_def ServeConn_iteration_def requestOutcome_def
  getContext_def putContext_def poolGet_def newContext_def
  readRequest_def readRequestHeader_def readRequestBody_def writeResponse_def
  sendResponse_def call_def setErrorType_def NewError_def ErrorType_defs
  Itoa_def decimal_digit digit_def Let_def

lemmas example_defs =
  arithServer_def emptyServer_def joinBuilder_def doubleService_def errorService_def
  noPlugins_def bodyGuard_def frameCodec_def startWorld_def

lemma cantFindService_not_Nil: "cantFindService path \<noteq> []"
  by (simp add: cantFindService_def)

lemma arithServer_hooks:
  "srv_PluginContainer arithServer = noPlugins"
  "srv_serviceMap arithServer path = Some service \<Longrightarrow> svc_pluginContainer service = noPlugins"
  by (auto simp: arithServer_def emptyServer_def doubleService_def errorService_def
           split: if_splits)

text \<open>
  Claim C8. After a parsed header and a failed later step, \<open>readRequest\<close> is to discard
  the body (\<open>ctx.readRequestBody(nil)\<close>, commented \<open>discard body\<close>) so that the loop can
  serve the next request. \<open>readRequestBody\<close> returns before the codec's body read when a
  \<open>PreReadRequestBody\<close> hook fails, and it does so in this call too. The connection below
  holds a request for the unknown service \<open>/no/such\<close> and then one for
  \<open>/arith/double\<close>. On the server without plugins the first request is answered with
  the code 5 of \<open>ServerNotFoundService\<close>, its body is read, and the second request
  reaches its handler. On the same server with a plugin whose \<open>PreReadRequestBody\<close>
  fails, the first iteration parses the header (\<open>keepReading\<close> is true), answers with
  sequence number 1 and goes on, but with the code 6 of \<open>ServerPreReadRequestBody\<close> in
  place of 5 and with no body read: the body of the first request is still the next frame
  of the connection. \<open>ServeConn\<close> reads that body as a header, fails and closes: the
  second request never reaches its handler.
\<close>

theorem ServeConn_body_not_drained:
  "map_option (map_option (\<lambda>w. (w_trace w, map ctx_req (w_running w))))
       (ServeConn frameCodec 0
          (startWorld arithServer
             [HeaderFrame 1 ''/no/such'', BodyFrame 3,
              HeaderFrame 2 ''/arith/double'', BodyFrame 4]))
     = Some (Some ([ConnReadHeader, ConnReadBody NilBody,
                    ConnWriteResponse
                      \<lparr>resp_ServiceMethod = ''/no/such'', resp_Seq = 1,
                       resp_Error = ''5'' @ cantFindService ''/no/such''\<rparr> InvalidRequest,
                    ConnReadHeader, ConnReadBody (Value 0), ConnReadHeader, ConnClose],
                   [\<lparr>req_ServiceMethod = ''/arith/double'', req_Seq = 2\<rparr>]))
   \<and> requestOutcome frameCodec 0
       (startWorld (arithServer\<lparr>srv_PluginContainer := bodyGuard\<rparr>)
          [HeaderFrame 1 ''/no/such'', BodyFrame 3, HeaderFrame 2 ''/arith/double'', BodyFrame 4])
     = Some (True, False, Some (cantFindService ''/no/such''))
   \<and> map_option (\<lambda>w. (w_trace w, w_conn w))
       (case ServeConn_iteration frameCodec 0
               (startWorld (arithServer\<lparr>srv_PluginContainer := bodyGuard\<rparr>)
                  [HeaderFrame 1 ''/no/such'', BodyFrame 3,
                   HeaderFrame 2 ''/arith/double'', BodyFrame 4]) of
          Continue w \<Rightarrow> Some w | Break w \<Rightarrow> None | Panicked \<Rightarrow> None)
     = Some ([ConnReadHeader,
              ConnWriteResponse
                \<lparr>resp_ServiceMethod = ''/no/such'', resp_Seq = 1,
                 resp_Error = ''6'' @ cantFindService ''/no/such''\<rparr> InvalidRequest],
             [BodyFrame 3, HeaderFrame 2 ''/arith/double'', BodyFrame 4])
   \<and> map_option (map_option (\<lambda>w. (w_trace w, map ctx_req (w_running w))))
       (ServeConn frameCodec 0
          (startWorld (arithServer\<lparr>srv_PluginContainer := bodyGuard\<rparr>)
             [HeaderFrame 1 ''/no/such'', BodyFrame 3,
              HeaderFrame 2 ''/arith/double'', BodyFrame 4]))
     = Some (Some ([ConnReadHeader,
                    ConnWriteResponse
                      \<lparr>resp_ServiceMethod = ''/no/such'', resp_Seq = 1,
                       resp_Error = ''6'' @ cantFindService ''/no/such''\<rparr> InvalidRequest,
                    ConnReadHeader, ConnClose],
                   []))"
  by (simp add: ServeConn.simps server_defs example_defs cantFindService_not_Nil)

text \<open>The statement about an iteration, on the server without plugins.\<close>

theorem ServeConn_recovers_after_parsed_header_witness:
  "\<not> (\<exists>req. doPreWriteResponse (srv_PluginContainer arithServer) req = Some [])
   \<and> \<not> (\<exists>path service req. srv_serviceMap arithServer path = Some service
          \<and> doPreWriteResponse (svc_pluginContainer service) req = Some [])
   \<and> requestOutcome frameCodec 0
       (startWorld arithServer [HeaderFrame 1 ''/no/such'', BodyFrame 3])
       = Some (True, False, Some (cantFindService ''/no/such''))
   \<and> cantFindService ''/no/such'' \<noteq> []
   \<and> (\<exists>c1 reads resp body w2.
         codec_ReadRequestHeader frameCodec [HeaderFrame 1 ''/no/such'', BodyFrame 3]
           = (HdrOk 1 ''/no/such'', c1)
       \<and> ServeConn_iteration frameCodec 0
           (startWorld arithServer [HeaderFrame 1 ''/no/such'', BodyFrame 3]) = Continue w2
       \<and> w_trace w2 = [ConnReadHeader] @ reads @ [ConnWriteResponse resp body]
       \<and> reads \<noteq> []
       \<and> resp_Seq resp = 1 \<and> resp_Error resp \<noteq> []
       \<and> ServeConn frameCodec 0
           (startWorld arithServer [HeaderFrame 1 ''/no/such'', BodyFrame 3])
           = ServeConn frameCodec 0 w2)
   \<and> doPreReadRequestHeader (srv_PluginContainer arithServer)
        \<lparr>req_ServiceMethod = [], req_Seq = 0\<rparr> = None
   \<and> fst (codec_ReadRequestHeader frameCodec []) = HdrEOF
   \<and> (\<exists>w2. ServeConn frameCodec 0 (startWorld arithServer []) = Some (Some w2)
          \<and> w_trace w2 = [ConnReadHeader, ConnClose])"
proof -
  let ?W1 = "startWorld arithServer [HeaderFrame 1 ''/no/such'', BodyFrame 3]"
  let ?W0 = "startWorld arithServer []"
  have s1: "w_server ?W1 = arithServer" "w_server ?W0 = arithServer"
    "w_conn ?W1 = [HeaderFrame 1 ''/no/such'', BodyFrame 3]" "w_conn ?W0 = []"
    "w_trace ?W1 = []" "w_trace ?W0 = []"
    by (simp_all add: startWorld_def)
  have pw: "\<forall>req. doPreWriteResponse (srv_PluginContainer arithServer) req \<noteq> Some []"
    by (simp add: arithServer_hooks noPlugins_def)
  have pws: "\<forall>path service req. srv_serviceMap arithServer path = Some service \<longrightarrow>
               doPreWriteResponse (svc_pluginContainer service) req \<noteq> Some []"
    using arithServer_hooks(2) by (auto simp: noPlugins_def)
  have pb: "\<forall>req. doPreReadRequestBody (srv_PluginContainer arithServer) req = None"
    by (simp add: arithServer_hooks noPlugins_def)
  have pbs: "\<forall>path service req. srv_serviceMap arithServer path = Some service \<longrightarrow>
               doPreReadRequestBody (svc_pluginContainer service) req = None"
    using arithServer_hooks(2) by (auto simp: noPlugins_def)
  have ro: "requestOutcome frameCodec 0 ?W1 = Some (True, False, Some (cantFindService ''/no/such''))"
    by (simp add: server_defs example_defs)
  have ne: "cantFindService ''/no/such'' \<noteq> []"
    by (rule cantFindService_not_Nil)
  have ph: "doPreReadRequestHeader (srv_PluginContainer arithServer)
              \<lparr>req_ServiceMethod = [], req_Seq = 0\<rparr> = None"
    by (simp add: arithServer_hooks noPlugins_def)
  have eof: "fst (codec_ReadRequestHeader frameCodec []) = HdrEOF"
    by (simp add: frameCodec_def)
  have hd: "codec_ReadRequestHeader frameCodec [HeaderFrame 1 ''/no/such'', BodyFrame 3]
              = (HdrOk 1 ''/no/such'', [BodyFrame 3])"
    by (simp add: frameCodec_def)
  note T1 = ServeConn_recovers_after_parsed_header
    [of ?W1 frameCodec 0 False "cantFindService ''/no/such''", unfolded s1, OF pw pws,
     THEN conjunct1, rule_format, OF conjI, OF ro ne]
  from T1 obtain seq sm c1 reads resp body w2 where
    h: "codec_ReadRequestHeader frameCodec [HeaderFrame 1 ''/no/such'', BodyFrame 3]
          = (HdrOk seq sm, c1)"
    and it: "ServeConn_iteration frameCodec 0 ?W1 = Continue w2"
    and tr: "w_trace w2 = [] @ [ConnReadHeader] @ reads @ [ConnWriteResponse resp body]"
    and dr: "(\<forall>req. doPreReadRequestBody (srv_PluginContainer arithServer) req = None)
             \<and> (\<forall>path service req. srv_serviceMap arithServer path = Some service \<longrightarrow>
                   doPreReadRequestBody (svc_pluginContainer service) req = None)
             \<longrightarrow> reads \<noteq> []"
    and rs: "resp_Seq resp = seq" "resp_Error resp \<noteq> []"
    and lp: "ServeConn frameCodec 0 ?W1 = ServeConn frameCodec 0 w2"
    by blast
  have "seq = 1" "sm = ''/no/such''"
    using h hd by simp_all
  moreover have "reads \<noteq> []"
    using dr pb pbs by blast
  ultimately have part1: "\<exists>c1 reads resp body w2.
         codec_ReadRequestHeader frameCodec [HeaderFrame 1 ''/no/such'', BodyFrame 3]
           = (HdrOk 1 ''/no/such'', c1)
       \<and> ServeConn_iteration frameCodec 0 ?W1 = Continue w2
       \<and> w_trace w2 = [ConnReadHeader] @ reads @ [ConnWriteResponse resp body]
       \<and> reads \<noteq> []
       \<and> resp_Seq resp = 1 \<and> resp_Error resp \<noteq> []
       \<and> ServeConn frameCodec 0 ?W1 = ServeConn frameCodec 0 w2"
    using h it tr rs lp by auto
  note T0 = ServeConn_recovers_after_parsed_header
    [of ?W0 frameCodec 0 False "[]", unfolded s1, OF pw pws,
     THEN conjunct2, rule_format, OF conjI, OF ph disjI1, OF eof]
  from T0 have part2: "\<exists>w2. ServeConn frameCodec 0 ?W0 = Some (Some w2)
          \<and> w_trace w2 = [ConnReadHeader, ConnClose]"
    by auto
  have nw: "\<not> (\<exists>req. doPreWriteResponse (srv_PluginContainer arithServer) req = Some [])"
    using pw by blast
  have nws: "\<not> (\<exists>path service req. srv_serviceMap arithServer path = Some service
          \<and> doPreWriteResponse (svc_pluginContainer service) req = Some [])"
    using pws by blast
  show ?thesis
    using nw nws ro ne part1 ph eof part2 by (intro conjI)
qed

subsection \<open>The error string of a response\<close>

text \<open>
  Claim C7. The server below serves two requests on one connection, one after the other
  (\<open>ServeRequest\<close>). The first asks for the unknown service \<open>/no/such\<close>: its error
  string is the code 5 of \<open>ServerNotFoundService\<close> and the message. The second asks for
  \<open>/arith/error\<close>, whose handler returns the error \<open>ERROR\<close>: its context is the
  recycled one, \<open>getContext\<close> has left the error kind of the first request in it, and
  the error string on the wire is \<open>5ERROR\<close>, the code of \<open>ServerNotFoundService\<close> in
  front of the handler's message.
\<close>

theorem handler_error_carries_stale_kind:
  "map_option (\<lambda>(err, w). (err, w_trace w))
     (Option.bind
        (ServeRequest frameCodec 0
           (startWorld arithServer [HeaderFrame 1 ''/no/such'', BodyFrame 3,
                                    HeaderFrame 2 ''/arith/error'', BodyFrame 4]))
        (\<lambda>(err, w). ServeRequest frameCodec 0 w))
   = Some (None,
        [ConnReadHeader, ConnReadBody NilBody,
         ConnWriteResponse
           \<lparr>resp_ServiceMethod = ''/no/such'', resp_Seq = 1,
            resp_Error = ''5'' @ cantFindService ''/no/such''\<rparr> InvalidRequest,
         ConnReadHeader, ConnReadBody (Value 0),
         ConnWriteResponse
           \<lparr>resp_ServiceMethod = ''/arith/error'', resp_Seq = 2,
            resp_Error = ''5ERROR''\<rparr> InvalidRequest])"
  by (simp add: server_defs example_defs cantFindService_not_Nil)

section \<open>Properties of the Colfer header\<close>

lemma length_varint: "length (varint x) = Suc (varintLen x)"
  by (induction x rule: varint.induct) (subst varint.simps, subst varintLen.simps, simp)

lemma length_marshalString: "length (marshalString tag s) = stringLen s"
  by (simp add: marshalString_def stringLen_def length_varint)

lemma length_marshalSeqID:
  "length (marshalSeqID x) =
     (if x \<ge> 2 ^ 49 then 9 else if x \<noteq> 0 then 2 + varintLen x else 0)"
  by (simp add: marshalSeqID_def length_varint)

lemma length_serial: "length (serial h) = fst (MarshalLen h)"
  by (simp add: serial_def MarshalLen_def Let_def length_marshalString length_marshalSeqID)

lemma MarshalBinary_serial:
  "snd (MarshalLen h) = None \<Longrightarrow> MarshalBinary h = Some (serial h, None)"
  by (cases "MarshalLen h")
     (use length_serial [of h] in \<open>auto simp: MarshalBinary_def MarshalTo_def\<close>)

lemma bit_128: "bit (128 :: 'a::len word) n \<longleftrightarrow> n = 7 \<and> 7 < LENGTH('a)"
  using bit_exp_iff [of 7 n, where ?'a = "'a word"] by auto

lemma bit_127: "bit (127 :: 'a::len word) n \<longleftrightarrow> n < 7 \<and> n < LENGTH('a)"
proof -
  have e: "(mask 7 :: 'a word) = 127"
    by (simp add: mask_eq_exp_minus_1)
  have "bit (mask 7 :: 'a word) n \<longleftrightarrow> n < 7 \<and> n < LENGTH('a)"
    by (auto simp: bit_mask_iff)
  then show ?thesis
    unfolding e .
qed

lemma bit_128_int: "bit (128 :: int) n \<longleftrightarrow> n = 7"
  using bit_exp_iff [of 7 n, where ?'a = int] by auto

lemma bit_127_int: "bit (127 :: int) n \<longleftrightarrow> n < 7"
proof -
  have e: "(mask 7 :: int) = 127"
    by (simp add: mask_eq_exp_minus_1)
  have "bit (mask 7 :: int) n \<longleftrightarrow> n < 7"
    by (auto simp: bit_mask_iff)
  then show ?thesis
    unfolding e .
qed

lemmas bit_consts = bit_127 bit_128 bit_127_int bit_128_int

lemma unat_ucast_byte:
  fixes x :: "64 word"
  shows "unat (ucast x :: 8 word) = unat x mod 256"
  by (simp add: unsigned_ucast_eq take_bit_eq_mod)

lemma cont_byte_ge:
  fixes x :: "64 word"
  shows "\<not> (ucast (x OR 0x80) :: 8 word) < 0x80"
proof -
  have "(ucast (x OR 0x80) :: 8 word) = 0x80 OR ucast x"
    by (rule bit_word_eqI) (auto simp: bit_simps bit_consts)
  then show ?thesis
    using le_word_or2 [of "0x80 :: 8 word" "ucast x"] by (simp add: not_less)
qed

lemma cont_byte_low:
  fixes x :: "64 word"
  shows "(ucast (ucast (x OR 0x80) :: 8 word) :: 64 word) AND 0x7f = take_bit 7 x"
  by (rule bit_word_eqI) (auto simp: bit_simps bit_consts)

lemma cont_byte_low32:
  fixes x :: "64 word"
  shows "(ucast (ucast (x OR 0x80) :: 8 word) :: 32 word) AND 0x7f = take_bit 7 (ucast x)"
  by (rule bit_word_eqI) (auto simp: bit_simps bit_consts)

lemma last_byte_lt:
  fixes x :: "64 word"
  assumes "\<not> x \<ge> 0x80"
  shows "(ucast x :: 8 word) < 0x80" and "(ucast (ucast x :: 8 word) :: 64 word) = x"
    and "(ucast (ucast x :: 8 word) :: 32 word) = ucast x"
proof -
  have u: "unat x < 128"
    using assms by (simp add: word_le_nat_alt not_le)
  then show "(ucast x :: 8 word) < 0x80"
    by (simp add: word_less_nat_alt unat_ucast_byte)
  have "x < 2 ^ 7"
    using u by (simp add: word_less_nat_alt)
  then have t: "take_bit 7 x = x"
    by (simp add: take_bit_eq_mask less_mask_eq)
  have "(ucast (ucast (take_bit 7 x) :: 8 word) :: 64 word) = take_bit 7 x"
    by (rule bit_word_eqI) (auto simp: bit_simps)
  then show "(ucast (ucast x :: 8 word) :: 64 word) = x"
    by (simp add: t)
  have "(ucast (ucast (take_bit 7 x) :: 8 word) :: 32 word) = ucast (take_bit 7 x)"
    by (rule bit_word_eqI) (auto simp: bit_simps)
  then show "(ucast (ucast x :: 8 word) :: 32 word) = ucast x"
    by (simp add: t)
qed

lemma shift_index: "shift \<le> n \<Longrightarrow> \<not> n - shift < 7 \<Longrightarrow> 7 + (n - (shift + 7)) = n - (shift::nat)"
  by arith

lemma glue64:
  fixes x acc :: "64 word"
  shows "acc OR push_bit shift (take_bit 7 x) OR push_bit (shift + 7) (drop_bit 7 x)
           = acc OR push_bit shift x"
proof (rule bit_word_eqI)
  fix n assume "n < LENGTH(64)"
  show "bit (acc OR push_bit shift (take_bit 7 x) OR push_bit (shift + 7) (drop_bit 7 x)) n
          \<longleftrightarrow> bit (acc OR push_bit shift x) n"
  proof (cases "shift \<le> n \<and> \<not> n - shift < 7")
    case True
    then show ?thesis
      using shift_index [of shift n] by (auto simp: bit_simps)
  next
    case False
    then show ?thesis
      by (auto simp: bit_simps)
  qed
qed

lemma glue32:
  fixes x :: "64 word" and acc :: "32 word"
  shows "acc OR push_bit shift (take_bit 7 (ucast x)) OR push_bit (shift + 7) (ucast (drop_bit 7 x))
           = acc OR push_bit shift (ucast x)"
proof (rule bit_word_eqI)
  fix n assume "n < LENGTH(32)"
  show "bit (acc OR push_bit shift (take_bit 7 (ucast x)) OR push_bit (shift + 7) (ucast (drop_bit 7 x))) n
          \<longleftrightarrow> bit (acc OR push_bit shift (ucast x :: 32 word)) n"
  proof (cases "shift \<le> n \<and> \<not> n - shift < 7")
    case True
    then show ?thesis
      using shift_index [of shift n] \<open>n < LENGTH(32)\<close> by (auto simp: bit_simps)
  next
    case False
    then show ?thesis
      by (auto simp: bit_simps)
  qed
qed


lemma drop_eq_Cons:
  assumes "drop i data = b # t"
  shows "i < length data" and "data ! i = b" and "drop (Suc i) data = t"
proof -
  show l: "i < length data"
    using assms by (cases "i < length data") auto
  show "data ! i = b"
    using assms l by (metis hd_drop_conv_nth list.sel(1))
  show "drop (Suc i) data = t"
    using assms by (metis drop_Suc list.sel(3) tl_drop)
qed

lemma readUint64_varint:
  "drop i data = varint x @ rest \<Longrightarrow> unat x < 2 ^ (49 - shift) \<Longrightarrow>
   readUint64 data i shift acc = Some (acc OR push_bit shift x, i + length (varint x))"
proof (induction x arbitrary: i shift acc rule: varint.induct)
  case (1 x)
  show ?case
  proof (cases "x \<ge> 0x80")
    case True
    let ?b = "ucast (x OR 0x80) :: 8 word"
    have v: "varint x = ?b # varint (drop_bit 7 x)"
      using True by (subst varint.simps) simp
    note d = drop_eq_Cons [OF "1.prems"(1) [unfolded v, simplified]]
    have big: "128 \<le> unat x"
      using True by (simp add: word_le_nat_alt)
    have sh: "shift < 42"
    proof (rule ccontr)
      assume "\<not> shift < 42"
      then have "(2::nat) ^ (49 - shift) \<le> 2 ^ 7"
        by (intro power_increasing) auto
      with "1.prems"(2) big show False by simp
    qed
    have "unat (drop_bit 7 x) = unat x div 2 ^ 7"
      by (simp add: drop_bit_eq_div unat_div)
    also have "\<dots> < 2 ^ (49 - shift - 7)"
    proof -
      have "49 - shift = (49 - shift - 7) + 7"
        using sh by simp
      then have "(2::nat) ^ (49 - shift) = 2 ^ (49 - shift - 7) * 2 ^ 7"
        by (metis power_add)
      with "1.prems"(2) show ?thesis
        by (simp add: less_mult_imp_div_less)
    qed
    finally have bound: "unat (drop_bit 7 x) < 2 ^ (49 - (shift + 7))"
      by simp
    have "readUint64 data i shift acc
            = readUint64 data (i + 1) (shift + 7) (acc OR push_bit shift (take_bit 7 x))"
      using d sh by (subst readUint64.simps) (simp add: cont_byte_ge cont_byte_low Let_def)
    also have "\<dots> = Some (acc OR push_bit shift (take_bit 7 x)
                           OR push_bit (shift + 7) (drop_bit 7 x),
                         i + 1 + length (varint (drop_bit 7 x)))"
      using "1.IH" [OF True, where i = "Suc i" and shift = "shift + 7"
          and acc = "acc OR push_bit shift (take_bit 7 x)"] d(3) bound
      by (simp add: or.assoc)
    finally show ?thesis
      by (simp add: glue64 v)
  next
    case False
    have v: "varint x = [ucast x]"
      using False by (subst varint.simps) simp
    note d = drop_eq_Cons [OF "1.prems"(1) [unfolded v, simplified]]
    show ?thesis
      using d last_byte_lt [OF False]
      by (subst readUint64.simps) (simp add: v Let_def)
  qed
qed

lemma readUint32_varint:
  "drop i data = varint x @ rest \<Longrightarrow>
   readUint32 data i shift acc = Some (acc OR push_bit shift (ucast x), i + length (varint x))"
proof (induction x arbitrary: i shift acc rule: varint.induct)
  case (1 x)
  show ?case
  proof (cases "x \<ge> 0x80")
    case True
    let ?b = "ucast (x OR 0x80) :: 8 word"
    have v: "varint x = ?b # varint (drop_bit 7 x)"
      using True by (subst varint.simps) simp
    note d = drop_eq_Cons [OF "1.prems"(1) [unfolded v, simplified]]
    have "readUint32 data i shift acc
            = readUint32 data (i + 1) (shift + 7) (acc OR push_bit shift (take_bit 7 (ucast x)))"
      using d by (subst readUint32.simps) (simp add: cont_byte_ge cont_byte_low32 Let_def)
    also have "\<dots> = Some (acc OR push_bit shift (take_bit 7 (ucast x))
                           OR push_bit (shift + 7) (ucast (drop_bit 7 x)),
                         i + 1 + length (varint (drop_bit 7 x)))"
      using "1.IH" [OF True, where i = "Suc i" and shift = "shift + 7"
          and acc = "acc OR push_bit shift (take_bit 7 (ucast x))"] d(3)
      by (simp add: or.assoc)
    finally show ?thesis
      by (simp add: glue32 v)
  next
    case False
    have v: "varint x = [ucast x]"
      using False by (subst varint.simps) simp
    note d = drop_eq_Cons [OF "1.prems"(1) [unfolded v, simplified]]
    show ?thesis
      using d last_byte_lt [OF False]
      by (subst readUint32.simps) (simp add: v Let_def)
  qed
qed


lemma unat_length32:
  assumes "n < 2 ^ 32"
  shows "unat (ucast (of_nat n :: 64 word) :: 32 word) = n"
proof -
  have "unat (of_nat n :: 64 word) = n"
    using assms by (simp add: unat_of_nat take_bit_nat_eq_self)
  then show ?thesis
    using assms by (simp add: unsigned_ucast_eq take_bit_nat_eq_self)
qed

lemma unmarshalString_marshal:
  assumes d: "drop (i - 1) data = marshalString tag s @ t # r"
      and i: "0 < i"
      and n: "length s < 2 ^ 32"
      and t: "t \<noteq> tag"
  shows "unmarshalString tag data (data ! (i - 1)) i
           = Some (if s = [] then None else Some s, t, i + length (marshalString tag s))"
proof (cases "s = []")
  case True
  then have "drop (i - 1) data = t # r"
    using d by (simp add: marshalString_def)
  from drop_eq_Cons [OF this] True t show ?thesis
    by (simp add: unmarshalString_def marshalString_def)
next
  case False
  let ?v = "varint (of_nat (length s) :: 64 word)"
  let ?i1 = "i + length ?v"
  have m: "marshalString tag s = tag # ?v @ s"
    using False by (simp add: marshalString_def)
  note h = drop_eq_Cons [OF d [unfolded m, simplified]]
  have d0: "drop i data = ?v @ s @ t # r"
    using h(3) i by simp
  have rd: "readUint32 data i 0 0 = Some (ucast (of_nat (length s) :: 64 word), ?i1)"
    using readUint32_varint [OF d0, of 0 0] by simp
  have d1: "drop ?i1 data = s @ t # r"
    using d0 by (metis add.commute append_eq_conv_conj drop_drop)
  have len: "?i1 + length s < length data"
  proof -
    have "length (drop ?i1 data) = length s + 1 + length r"
      unfolding d1 by simp
    then show ?thesis by simp
  qed
  have tk: "take (length s) (drop ?i1 data) = s"
    unfolding d1 by simp
  have "drop ?i1 data ! length s = t"
    unfolding d1 by (simp add: nth_append)
  then have nth: "data ! (?i1 + length s) = t"
    using len by (simp add: nth_drop)
  show ?thesis
    using rd len tk nth h(2) False
    by (simp add: unmarshalString_def unat_length32 [OF n] Let_def m)
qed

lemma be64:
  fixes x :: "64 word"
  shows "push_bit 56 (ucast (ucast (drop_bit 56 x) :: 8 word))
           OR push_bit 48 (ucast (ucast (drop_bit 48 x) :: 8 word))
           OR push_bit 40 (ucast (ucast (drop_bit 40 x) :: 8 word))
           OR push_bit 32 (ucast (ucast (drop_bit 32 x) :: 8 word))
           OR push_bit 24 (ucast (ucast (drop_bit 24 x) :: 8 word))
           OR push_bit 16 (ucast (ucast (drop_bit 16 x) :: 8 word))
           OR push_bit 8 (ucast (ucast (drop_bit 8 x) :: 8 word))
           OR ucast (ucast x :: 8 word) = x"
  (is "?L = x")
proof (rule bit_word_eqI)
  fix n assume "n < LENGTH(64)"
  then consider "n < 8" | "8 \<le> n" "n < 16" | "16 \<le> n" "n < 24" | "24 \<le> n" "n < 32"
    | "32 \<le> n" "n < 40" | "40 \<le> n" "n < 48" | "48 \<le> n" "n < 56" | "56 \<le> n" "n < 64"
    by fastforce
  then show "bit ?L n = bit x n"
    by cases (simp_all add: bit_simps less_diff_conv2)
qed


lemma varint_not_Nil: "varint x \<noteq> []"
  by (subst varint.simps) simp

lemma unmarshalSeqID_marshal:
  assumes d: "data = marshalSeqID x @ t # r"
      and t: "t \<noteq> 0" "t \<noteq> 0x80"
      and z: "SeqID h = 0"
  shows "unmarshalSeqID data h (data ! 0) 1
           = Inr (h\<lparr>SeqID := x\<rparr>, t, length (marshalSeqID x) + 1)"
proof -
  consider "x \<ge> 2 ^ 49" | "\<not> x \<ge> 2 ^ 49" "x \<noteq> 0" | "x = 0"
    by auto
  then show ?thesis
  proof cases
    case 1
    then have m: "marshalSeqID x =
        [0x80,
         ucast (drop_bit 56 x), ucast (drop_bit 48 x), ucast (drop_bit 40 x),
         ucast (drop_bit 32 x), ucast (drop_bit 24 x), ucast (drop_bit 16 x),
         ucast (drop_bit 8 x), ucast x]"
      by (simp add: marshalSeqID_def)
    show ?thesis
      unfolding d m by (simp add: unmarshalSeqID_def be64)
  next
    case 2
    then have m: "marshalSeqID x = 0 # varint x"
      by (simp add: marshalSeqID_def)
    have d1: "drop 1 data = varint x @ t # r"
      unfolding d m by simp
    have "unat x < 2 ^ 49"
      using 2(1) by (simp add: word_le_nat_alt not_le)
    then have rd: "readUint64 data 1 0 0 = Some (x, 1 + length (varint x))"
      using readUint64_varint [OF d1, of 0 0] by simp
    have d2: "drop (1 + length (varint x)) data = t # r"
      unfolding d m by simp
    note h = drop_eq_Cons [OF d2]
    show ?thesis
      using rd h by (simp add: unmarshalSeqID_def d m)
  next
    case 3
    then show ?thesis
      using t z by (simp add: unmarshalSeqID_def d marshalSeqID_def)
  qed
qed

lemma marshalString_head:
  "\<exists>t r. marshalString tag s @ rest = t # r \<and> (t = tag \<or> (s = [] \<and> t = hd rest))"
  if "rest \<noteq> []"
  using that by (cases rest) (auto simp: marshalString_def)

text \<open>
  Claim C9. For every header whose \<open>MarshalLen\<close> does not exceed \<open>ColferSizeMax\<close>,
  \<open>MarshalBinary\<close> returns its bytes without error, and \<open>UnmarshalBinary\<close> of these
  bytes into a zero header returns no error and leaves a header equal to the one marshalled.
\<close>

theorem MarshalBinary_UnmarshalBinary:
  assumes bound: "fst (MarshalLen h) \<le> ColferSizeMax"
  shows "\<exists>data. MarshalBinary h = Some (data, None)
           \<and> UnmarshalBinary zeroHeader data = (h, None)"
proof -
  have assms: "snd (MarshalLen h) = None"
    using bound by (auto simp: MarshalLen_def Let_def)
  let ?S = "marshalSeqID (SeqID h)"
  let ?M = "marshalString 1 (Method h)"
  let ?E = "marshalString 2 (Error h)"
  let ?data = "serial h"
  have mb: "MarshalBinary h = Some (?data, None)"
    by (rule MarshalBinary_serial [OF assms])
  have size: "length ?data \<le> ColferSizeMax"
    using assms length_serial [of h] by (auto simp: MarshalLen_def Let_def split: if_splits)
  have lm: "length (Method h) < 2 ^ 32" and le: "length (Error h) < 2 ^ 32"
    using size by (auto simp: serial_def marshalString_def ColferSizeMax_def split: if_splits)
  obtain t3 where E: "?E @ [0x7f] = t3 # tl (?E @ [0x7f])"
    and t3: "t3 = 2 \<or> (Error h = [] \<and> t3 = 0x7f)"
    by (cases "Error h = []") (auto simp: marshalString_def)
  obtain t2 where M: "?M @ ?E @ [0x7f] = t2 # tl (?M @ ?E @ [0x7f])"
    and t2: "t2 = 1 \<or> (Method h = [] \<and> t2 = t3)"
    using E by (cases "Method h = []") (auto simp: marshalString_def)
  have d1: "?data = ?S @ t2 # tl (?M @ ?E @ [0x7f])"
    using M by (simp add: serial_def)
  have s1: "unmarshalSeqID ?data zeroHeader (?data ! 0) 1
              = Inr (zeroHeader\<lparr>SeqID := SeqID h\<rparr>, t2, length ?S + 1)"
    using t2 t3 by (intro unmarshalSeqID_marshal [OF d1]) (auto simp: zeroHeader_def)
  have d2: "drop (length ?S + 1 - 1) ?data = ?M @ t3 # tl (?E @ [0x7f])"
    using E by (simp add: serial_def)
  have h2: "?data ! (length ?S) = t2"
    unfolding d1 by simp
  have s2: "unmarshalString 1 ?data t2 (length ?S + 1)
              = Some (if Method h = [] then None else Some (Method h), t3,
                      length ?S + 1 + length ?M)"
    using unmarshalString_marshal [OF d2 _ lm] t3 h2 by auto
  have d3: "drop (length ?S + 1 + length ?M - 1) ?data = ?E @ 0x7f # []"
    by (simp add: serial_def)
  have "drop (length ?S + length ?M) ?data = t3 # tl (?E @ [0x7f])"
    using E by (simp add: serial_def)
  then have h3: "?data ! (length ?S + length ?M) = t3"
    by (rule drop_eq_Cons(2))
  have s3: "unmarshalString 2 ?data t3 (length ?S + 1 + length ?M)
              = Some (if Error h = [] then None else Some (Error h), 0x7f,
                      length ?S + 1 + length ?M + length ?E)"
    using unmarshalString_marshal [OF d3 _ le] h3 by auto
  have len: "length ?data = length ?S + 1 + length ?M + length ?E"
    by (simp add: serial_def)
  have ne: "length ?data \<noteq> 0"
    by (simp add: serial_def)
  have "unmarshalWithin zeroHeader ?data = (h, length ?data, None)"
    using ne s1 s2 s3 len by (simp add: unmarshalWithin_def zeroHeader_def)
  then have "UnmarshalBinary zeroHeader ?data = (h, None)"
    using size by (simp add: UnmarshalBinary_def Unmarshal_def)
  with mb show ?thesis by blast
qed

theorem MarshalBinary_UnmarshalBinary_witness:
  "fst (MarshalLen \<lparr>SeqID = 300, Method = [97, 98], Error = []\<rparr>) \<le> ColferSizeMax
   \<and> MarshalBinary \<lparr>SeqID = 300, Method = [97, 98], Error = []\<rparr>
       = Some ([0, 0xAC, 2, 1, 2, 97, 98, 0x7f], None)
   \<and> UnmarshalBinary zeroHeader [0, 0xAC, 2, 1, 2, 97, 98, 0x7f]
       = (\<lparr>SeqID = 300, Method = [97, 98], Error = []\<rparr>, None)"
proof -
  let ?h = "\<lparr>SeqID = 300, Method = [97, 98], Error = []\<rparr>"
  have v300: "varint 300 = [0xAC, 2]"
    by (subst varint.simps, simp, subst varint.simps, simp)
  have v2: "varint 2 = [2]"
    by (subst varint.simps) simp
  have ser: "serial ?h = [0, 0xAC, 2, 1, 2, 97, 98, 0x7f]"
    by (simp add: serial_def marshalSeqID_def marshalString_def v300 v2)
  have b: "fst (MarshalLen ?h) \<le> ColferSizeMax"
    using length_serial [of ?h] by (simp add: ser ColferSizeMax_def)
  from MarshalBinary_UnmarshalBinary [OF b] obtain data where
    m: "MarshalBinary ?h = Some (data, None)"
    and u: "UnmarshalBinary zeroHeader data = (?h, None)"
    by blast
  have "MarshalBinary ?h = Some (serial ?h, None)"
    using b by (intro MarshalBinary_serial) (auto simp: MarshalLen_def Let_def)
  with m have "data = [0, 0xAC, 2, 1, 2, 97, 98, 0x7f]"
    by (simp add: ser)
  with b m u show ?thesis by simp
qed

end
